theory Spec2Isabelle
  imports Complex_Main "HOL-Library.Word" "HOL-Library.Log_Nat"
begin

section \<open>Single-precision arithmetic\<close>

text \<open>
  The source computes in \<^verbatim>\<open>f32 = float\<close> and \<^verbatim>\<open>u32 = uint32_t\<close>. An \<open>f32\<close> is modelled
  by its 32 bits: bit 31 is the sign, bits 30..23 the biased exponent, bits 22..0 the
  fraction (IEEE 754 binary32). Every arithmetic operation computes the exact result and
  rounds it once, to nearest with ties to even, which is the default rounding mode of the
  AVX target that \<^verbatim>\<open>optimized_clean_code.cpp\<close> is written for. A NaN result is always
  the one quiet NaN \<open>0x7FC00000\<close>: which payload the hardware would deliver is not modelled.
\<close>

type_synonym f32 = "32 word"
type_synonym u32 = "32 word"

definition sign_of :: "f32 \<Rightarrow> bool" where
  "sign_of x = (2 ^ 31 \<le> uint x)"

definition mag_bits :: "f32 \<Rightarrow> int" where
  "mag_bits x = uint x mod 2 ^ 31"

definition pack :: "bool \<Rightarrow> int \<Rightarrow> f32" where
  "pack s n = word_of_int (if s then 2 ^ 31 + n else n)"

definition is_nan :: "f32 \<Rightarrow> bool" where
  "is_nan x = (0x7F800000 < mag_bits x)"

definition is_inf :: "f32 \<Rightarrow> bool" where
  "is_inf x = (mag_bits x = 0x7F800000)"

definition qNaN :: f32 where
  "qNaN = 0x7FC00000"

text \<open>
  A finite \<open>x\<close> has the value \<open>mant x * 2 ^ expo x\<close>: below \<open>2 ^ 23\<close> the magnitude bits
  are a subnormal (or zero) in units of \<open>2 ^ -149\<close>, above they are a normal number with
  the hidden bit restored.
\<close>

definition mant :: "f32 \<Rightarrow> int" where
  "mant x = (let p = mag_bits x; m = (if p < 2 ^ 23 then p else 2 ^ 23 + p mod 2 ^ 23)
             in if sign_of x then - m else m)"

definition expo :: "f32 \<Rightarrow> int" where
  "expo x = (let p = mag_bits x in if p < 2 ^ 23 then - 149 else p div 2 ^ 23 - 150)"

text \<open>\<open>scale2 n d e\<close> is the fraction \<open>n / d\<close> divided by \<open>2 ^ e\<close>, as a pair.\<close>

definition scale2 :: "int \<Rightarrow> int \<Rightarrow> int \<Rightarrow> int \<times> int" where
  "scale2 n d e = (if 0 \<le> e then (n, d * 2 ^ nat e) else (n * 2 ^ nat (- e), d))"

text \<open>\<open>ilog2 n d\<close> is the integer \<open>k\<close> with \<open>2 ^ k \<le> n / d < 2 ^ (k + 1)\<close>, for positive \<open>n\<close>, \<open>d\<close>.\<close>

definition ilog2 :: "int \<Rightarrow> int \<Rightarrow> int" where
  "ilog2 n d = (let k = bitlen n - bitlen d; (N, D) = scale2 n d k
                in if D \<le> N then k else k - 1)"

text \<open>\<open>rne N D\<close> is \<open>N / D\<close> rounded to the nearest integer, a tie going to the even one.\<close>

definition rne :: "int \<Rightarrow> int \<Rightarrow> int" where
  "rne N D = (let f = N div D; r = N mod D in
     if 2 * r < D then f else if D < 2 * r then f + 1 else if even f then f else f + 1)"

text \<open>
  \<open>round_mag n d x\<close> rounds the non-negative exact value \<open>n / d * 2 ^ x\<close> and returns the
  magnitude bits of the result. With \<open>e\<close> the exponent of the last place and \<open>m\<close> the
  rounded significand, the bits are \<open>(e + 149) * 2 ^ 23 + m\<close>: a carry out of the
  significand moves into the exponent field by itself, and everything from \<open>2 ^ 128\<close>
  on is infinity.
\<close>

definition round_mag :: "int \<Rightarrow> int \<Rightarrow> int \<Rightarrow> int" where
  "round_mag n d x = (if n \<le> 0 then 0 else
     let e = max (ilog2 n d + x - 23) (- 149); (N, D) = scale2 n d (e - x)
     in min ((e + 149) * 2 ^ 23 + rne N D) 0x7F800000)"

definition round_f32 :: "int \<Rightarrow> int \<Rightarrow> int \<Rightarrow> f32" where
  "round_f32 n d x =
     (if n < 0 then pack True (round_mag (- n) d x) else pack False (round_mag n d x))"

definition fadd :: "f32 \<Rightarrow> f32 \<Rightarrow> f32" where
  "fadd a b =
    (if is_nan a \<or> is_nan b then qNaN
     else if is_inf a then (if is_inf b \<and> sign_of a \<noteq> sign_of b then qNaN else a)
     else if is_inf b then b
     else let x = min (expo a) (expo b);
              s = mant a * 2 ^ nat (expo a - x) + mant b * 2 ^ nat (expo b - x) in
       if s = 0 then pack (sign_of a \<and> sign_of b) 0 else round_f32 s 1 x)"

definition fmul :: "f32 \<Rightarrow> f32 \<Rightarrow> f32" where
  "fmul a b =
    (if is_nan a \<or> is_nan b then qNaN
     else if is_inf a \<or> is_inf b then
       (if mag_bits a = 0 \<or> mag_bits b = 0 then qNaN
        else pack (sign_of a \<noteq> sign_of b) 0x7F800000)
     else pack (sign_of a \<noteq> sign_of b)
            (round_mag \<bar>mant a * mant b\<bar> 1 (expo a + expo b)))"

definition fdiv :: "f32 \<Rightarrow> f32 \<Rightarrow> f32" where
  "fdiv a b =
    (if is_nan a \<or> is_nan b then qNaN
     else if is_inf a then
       (if is_inf b then qNaN else pack (sign_of a \<noteq> sign_of b) 0x7F800000)
     else if is_inf b then pack (sign_of a \<noteq> sign_of b) 0
     else if mag_bits b = 0 then
       (if mag_bits a = 0 then qNaN else pack (sign_of a \<noteq> sign_of b) 0x7F800000)
     else pack (sign_of a \<noteq> sign_of b)
            (round_mag \<bar>mant a\<bar> \<bar>mant b\<bar> (expo a - expo b)))"

text \<open>The fused multiply-add \<open>a * b + c\<close> of \<^verbatim>\<open>_mm256_fmadd_ps\<close>: one rounding.\<close>

definition ffma :: "f32 \<Rightarrow> f32 \<Rightarrow> f32 \<Rightarrow> f32" where
  "ffma a b c =
    (if is_nan a \<or> is_nan b \<or> is_nan c then qNaN
     else if is_inf a \<or> is_inf b then
       (if mag_bits a = 0 \<or> mag_bits b = 0 then qNaN
        else if is_inf c \<and> sign_of c \<noteq> (sign_of a \<noteq> sign_of b) then qNaN
        else pack (sign_of a \<noteq> sign_of b) 0x7F800000)
     else if is_inf c then c
     else let x = min (expo a + expo b) (expo c);
              s = mant a * mant b * 2 ^ nat (expo a + expo b - x) + mant c * 2 ^ nat (expo c - x) in
       if s = 0 then pack ((sign_of a \<noteq> sign_of b) \<and> sign_of c) 0 else round_f32 s 1 x)"

text \<open>
  Contraction. Where the source writes \<^verbatim>\<open>Accum += a * b\<close>, a compiler may round the
  product and then add, or contract the two into one fused multiply-add with a single
  rounding; builds with FMA enabled, which \<^verbatim>\<open>optimized_clean_code.cpp\<close> needs, do the
  latter once they optimise. The two can differ in the last bit, so every function with such
  a statement takes the build's choice as its first argument \<open>fused\<close>. The same holds
  where the product is the last operation of an inlined callee, as in
  \<^verbatim>\<open>Accum += GetAreaUnion(Shapes[i])\<close>.
\<close>

definition mul_add :: "bool \<Rightarrow> f32 \<Rightarrow> f32 \<Rightarrow> f32 \<Rightarrow> f32" where
  "mul_add fused a b Accum = (if fused then ffma a b Accum else fadd Accum (fmul a b))"

text \<open>The conversion \<^verbatim>\<open>(f32)\<close> of a \<open>u32\<close>, and the comparison \<^verbatim>\<open>x >= 0.0f\<close>.\<close>

definition u32_to_f32 :: "u32 \<Rightarrow> f32" where
  "u32_to_f32 c = round_f32 (uint c) 1 0"

definition f32_nonneg :: "f32 \<Rightarrow> bool" where
  "f32_nonneg x = (\<not> is_nan x \<and> (\<not> sign_of x \<or> mag_bits x = 0))"

text \<open>The literals of the source: a decimal literal is rounded to the nearest \<open>f32\<close>.\<close>

definition F0 :: f32 where "F0 = round_f32 0 1 0"
definition F1 :: f32 where "F1 = round_f32 1 1 0"
definition F0_5 :: f32 where "F0_5 = round_f32 5 10 0"
definition F3 :: f32 where "F3 = round_f32 3 1 0"
definition F4 :: f32 where "F4 = round_f32 4 1 0"

section \<open>shapes.h\<close>

definition Pi32 :: f32 where
  "Pi32 = round_f32 314159265359 100000000000 0"

text \<open>\<^verbatim>\<open>enum shape_type : u32\<close>: the tag is a \<open>u32\<close>, so a record can hold any 32-bit value.\<close>

type_synonym shape_type = u32

definition Shape_Square :: shape_type where "Shape_Square = 0"
definition Shape_Rectangle :: shape_type where "Shape_Rectangle = 1"
definition Shape_Triangle :: shape_type where "Shape_Triangle = 2"
definition Shape_Circle :: shape_type where "Shape_Circle = 3"
definition Shape_Count :: shape_type where "Shape_Count = 4"

record shape_union =
  Type :: shape_type
  Width :: f32
  Height :: f32

text \<open>
  The class hierarchy: an object is given by its dynamic type and its private fields.
  \<open>shape_base\<close> itself is not abstract, its methods return \<open>0.0f\<close> and \<open>0\<close>.
\<close>

datatype shape_base =
    base
  | square f32
  | rectangle f32 f32
  | triangle f32 f32
  | circle f32

fun Area :: "shape_base \<Rightarrow> f32" where
  "Area base = F0"
| "Area (square side) = fmul side side"
| "Area (rectangle width height) = fmul width height"
| "Area (triangle tbase height) = fmul (fmul F0_5 tbase) height"
| "Area (circle radius) = fmul (fmul Pi32 radius) radius"

fun CornerCount :: "shape_base \<Rightarrow> u32" where
  "CornerCount base = 0"
| "CornerCount (square side) = 4"
| "CornerCount (rectangle width height) = 4"
| "CornerCount (triangle tbase height) = 3"
| "CornerCount (circle radius) = 0"

text \<open>
  A \<^verbatim>\<open>shape_base*\<close> is an address; the heap maps the addresses of live objects to the
  objects. Address 0 is the null pointer. Calling a method through a pointer that is null
  or dangling is undefined behaviour, the value \<open>None\<close> of the model.
\<close>

type_synonym shape_ptr = nat
type_synonym heap = "shape_ptr \<Rightarrow> shape_base option"

record AreaCollector =
  areas :: "f32 list"

record CornerCollector =
  areas :: "f32 list"
  weights :: "f32 list"

text \<open>
  \<open>addShape\<close> returns the heap, the collector after the call and the returned pointer.
\<close>

definition AreaCollector_addShape ::
  "heap \<Rightarrow> AreaCollector \<Rightarrow> shape_ptr \<Rightarrow> (heap \<times> AreaCollector \<times> shape_ptr) option" where
  "AreaCollector_addShape h c shape =
     (case h shape of
        None \<Rightarrow> None
      | Some obj \<Rightarrow>
          Some (h, c\<lparr>AreaCollector.areas := AreaCollector.areas c @ [Area obj]\<rparr>, shape))"

definition CornerCollector_addShape ::
  "heap \<Rightarrow> CornerCollector \<Rightarrow> shape_ptr \<Rightarrow> (heap \<times> CornerCollector \<times> shape_ptr) option" where
  "CornerCollector_addShape h c shape =
     (case h shape of
        None \<Rightarrow> None
      | Some obj \<Rightarrow>
          let area = Area obj;
              corner_count = CornerCount obj;
              weight = fdiv F1 (fadd F1 (u32_to_f32 corner_count))
          in Some (h, c\<lparr>CornerCollector.areas := CornerCollector.areas c @ [area],
                        weights := weights c @ [weight]\<rparr>, shape))"

text \<open>The constructor, and a run of \<open>addShape\<close> calls on one collector.\<close>

definition CornerCollector_new :: CornerCollector where
  "CornerCollector_new = \<lparr>CornerCollector.areas = [], weights = []\<rparr>"

fun CornerCollector_addShapes ::
  "heap \<Rightarrow> CornerCollector \<Rightarrow> shape_ptr list \<Rightarrow> (heap \<times> CornerCollector) option" where
  "CornerCollector_addShapes h c [] = Some (h, c)"
| "CornerCollector_addShapes h c (p # ps) =
     (case CornerCollector_addShape h c p of
        None \<Rightarrow> None
      | Some (h', c', r) \<Rightarrow> CornerCollector_addShapes h' c' ps)"

section \<open>Reading arrays\<close>

text \<open>
  An array argument \<^verbatim>\<open>T* Shapes\<close> is the list of the elements it points to. Reading past
  the end is undefined behaviour: \<open>None\<close>.
\<close>

definition at_index :: "'a list \<Rightarrow> nat \<Rightarrow> 'a option" where
  "at_index xs i = (if i < length xs then Some (xs ! i) else None)"

text \<open>
  The six one-accumulator functions are the same loop
  \<^verbatim>\<open>for (u32 i = 0; i < ShapeCount; ++i) Accum += ...(Shapes[i]);\<close>
  around different updates of \<open>Accum\<close>; \<open>upd Accum s\<close> is the accumulator after the
  statement for the element \<open>s\<close>.
\<close>

function accum_loop ::
  "(f32 \<Rightarrow> 'a \<Rightarrow> f32 option) \<Rightarrow> u32 \<Rightarrow> 'a list \<Rightarrow> u32 \<Rightarrow> f32 \<Rightarrow> f32 option" where
  "accum_loop upd ShapeCount Shapes i Accum =
     (if i < ShapeCount then
        (case Option.bind (at_index Shapes (unat i)) (upd Accum) of
           None \<Rightarrow> None
         | Some Accum' \<Rightarrow> accum_loop upd ShapeCount Shapes (i + 1) Accum')
      else Some Accum)"
  by pat_completeness auto
termination
proof (relation "measure (\<lambda>(upd, ShapeCount, Shapes, i, Accum). unat ShapeCount - unat i)")
  show "wf (measure (\<lambda>(upd, ShapeCount, Shapes, i, Accum). unat ShapeCount - unat i))"
    by simp
next
  fix upd :: "f32 \<Rightarrow> 'a \<Rightarrow> f32 option" and ShapeCount :: u32 and Shapes :: "'a list"
    and i :: u32 and Accum :: f32 and x2 :: f32
  assume lt: "i < ShapeCount"
  have "unat ShapeCount < 2 ^ 32"
    using unsigned_less [of ShapeCount] by simp
  with lt have "unat i + unat (1 :: u32) < 2 ^ LENGTH(32)"
    by (simp add: word_less_nat_alt)
  then have "unat (i + 1) = unat i + unat (1 :: u32)"
    by (simp only: unat_add_lem)
  then have "unat (i + 1) = Suc (unat i)"
    by simp
  with lt show "((upd, ShapeCount, Shapes, i + 1, x2), (upd, ShapeCount, Shapes, i, Accum))
        \<in> measure (\<lambda>(upd, ShapeCount, Shapes, i, Accum). unat ShapeCount - unat i)"
    by (simp add: word_less_nat_alt)
qed

text \<open>
  The six four-accumulator functions are the loop
  \<^verbatim>\<open>while (Count--) { Accum0 += ...(Shapes[0]); ... Accum3 += ...(Shapes[3]); Shapes += 4; }\<close>.
\<close>

function accum4_loop ::
  "(f32 \<Rightarrow> 'a \<Rightarrow> f32 option) \<Rightarrow> u32 \<Rightarrow> 'a list \<Rightarrow> f32 \<times> f32 \<times> f32 \<times> f32
     \<Rightarrow> (f32 \<times> f32 \<times> f32 \<times> f32) option" where
  "accum4_loop upd Count Shapes (Accum0, Accum1, Accum2, Accum3) =
     (if Count = 0 then Some (Accum0, Accum1, Accum2, Accum3)
      else
        (case Option.bind (at_index Shapes 0) (upd Accum0) of None \<Rightarrow> None | Some a0 \<Rightarrow>
        (case Option.bind (at_index Shapes 1) (upd Accum1) of None \<Rightarrow> None | Some a1 \<Rightarrow>
        (case Option.bind (at_index Shapes 2) (upd Accum2) of None \<Rightarrow> None | Some a2 \<Rightarrow>
        (case Option.bind (at_index Shapes 3) (upd Accum3) of None \<Rightarrow> None | Some a3 \<Rightarrow>
           accum4_loop upd (Count - 1) (drop 4 Shapes) (a0, a1, a2, a3))))))"
  by pat_completeness auto
termination
  by (relation "measure (\<lambda>(upd, Count, Shapes, A). unat Count)")
     (simp_all add: measure_unat)

definition sum_accums :: "(f32 \<times> f32 \<times> f32 \<times> f32) option \<Rightarrow> f32 option" where
  "sum_accums r = (case r of
       None \<Rightarrow> None
     | Some (Accum0, Accum1, Accum2, Accum3) \<Rightarrow>
         Some (fadd (fadd (fadd Accum0 Accum1) Accum2) Accum3))"

section \<open>switch_code.cpp\<close>

definition GetAreaSwitch :: "shape_union \<Rightarrow> f32" where
  "GetAreaSwitch Shape =
     (if Type Shape = Shape_Square then fmul (Width Shape) (Width Shape)
      else if Type Shape = Shape_Rectangle then fmul (Width Shape) (Height Shape)
      else if Type Shape = Shape_Triangle then fmul (fmul F0_5 (Width Shape)) (Height Shape)
      else if Type Shape = Shape_Circle then fmul (fmul Pi32 (Width Shape)) (Width Shape)
      else F0)"

definition GetCornerCountSwitch :: "shape_type \<Rightarrow> u32" where
  "GetCornerCountSwitch T =
     (if T = Shape_Square then 4
      else if T = Shape_Rectangle then 4
      else if T = Shape_Triangle then 3
      else if T = Shape_Circle then 0
      else 0)"

text \<open>
  The corner-weighted term \<^verbatim>\<open>(1.0f / (1.0f + (f32)GetCornerCountSwitch(Type))) * GetAreaSwitch(Shape)\<close>
  as a value of its own, the product rounded.
\<close>

definition CornerTermSwitch :: "shape_union \<Rightarrow> f32" where
  "CornerTermSwitch Shape =
     fmul (fdiv F1 (fadd F1 (u32_to_f32 (GetCornerCountSwitch (Type Shape)))))
          (GetAreaSwitch Shape)"

text \<open>
  The loop bodies. \<^verbatim>\<open>Accum += GetAreaSwitch(Shapes[i])\<close> adds a value that comes out of
  the switch: there is no product next to the addition to contract. In
  \<^verbatim>\<open>Accum += (1.0f / (1.0f + ...)) * GetAreaSwitch(Shapes[i])\<close> there is.
\<close>

definition add_AreaSwitch :: "f32 \<Rightarrow> shape_union \<Rightarrow> f32 option" where
  "add_AreaSwitch Accum Shape = Some (fadd Accum (GetAreaSwitch Shape))"

definition add_CornerSwitch :: "bool \<Rightarrow> f32 \<Rightarrow> shape_union \<Rightarrow> f32 option" where
  "add_CornerSwitch fused Accum Shape =
     Some (mul_add fused (fdiv F1 (fadd F1 (u32_to_f32 (GetCornerCountSwitch (Type Shape)))))
             (GetAreaSwitch Shape) Accum)"

definition TotalAreaSwitch :: "u32 \<Rightarrow> shape_union list \<Rightarrow> f32 option" where
  "TotalAreaSwitch ShapeCount Shapes = accum_loop add_AreaSwitch ShapeCount Shapes 0 F0"

definition TotalAreaSwitch4 :: "u32 \<Rightarrow> shape_union list \<Rightarrow> f32 option" where
  "TotalAreaSwitch4 ShapeCount Shapes =
     sum_accums (accum4_loop add_AreaSwitch (ShapeCount div 4) Shapes (F0, F0, F0, F0))"

definition CornerAreaSwitch :: "bool \<Rightarrow> u32 \<Rightarrow> shape_union list \<Rightarrow> f32 option" where
  "CornerAreaSwitch fused ShapeCount Shapes =
     accum_loop (add_CornerSwitch fused) ShapeCount Shapes 0 F0"

definition CornerAreaSwitch4 :: "bool \<Rightarrow> u32 \<Rightarrow> shape_union list \<Rightarrow> f32 option" where
  "CornerAreaSwitch4 fused ShapeCount Shapes =
     sum_accums (accum4_loop (add_CornerSwitch fused) (ShapeCount div 4) Shapes
                   (F0, F0, F0, F0))"

section \<open>table_code.cpp\<close>

text \<open>
  Both tables have \<open>Shape_Count = 4\<close> entries and are indexed by the tag with no check:
  a tag of 4 or more reads past the table, which is undefined behaviour (\<open>None\<close>).
\<close>

definition AreaCTable :: "f32 list" where
  "AreaCTable = [F1, F1, F0_5, Pi32]"

definition CornerAreaCTable :: "f32 list" where
  "CornerAreaCTable =
     [fdiv F1 (fadd F1 F4), fdiv F1 (fadd F1 F4), fdiv F0_5 (fadd F1 F3), Pi32]"

definition GetAreaUnion :: "shape_union \<Rightarrow> f32 option" where
  "GetAreaUnion Shape =
     (case at_index AreaCTable (unat (Type Shape)) of
        None \<Rightarrow> None
      | Some c \<Rightarrow> Some (fmul (fmul c (Width Shape)) (Height Shape)))"

definition GetCornerAreaUnion :: "shape_union \<Rightarrow> f32 option" where
  "GetCornerAreaUnion Shape =
     (case at_index CornerAreaCTable (unat (Type Shape)) of
        None \<Rightarrow> None
      | Some c \<Rightarrow> Some (fmul (fmul c (Width Shape)) (Height Shape)))"

text \<open>
  The loop bodies \<^verbatim>\<open>Accum += GetAreaUnion(Shapes[i])\<close> and
  \<^verbatim>\<open>Accum += GetCornerAreaUnion(Shapes[i])\<close>. The callee is one expression and is
  inlined, so its last product, of \<open>c * Width\<close> and \<open>Height\<close>, stands next to the
  addition and is contracted with it where the build contracts.
\<close>

definition add_AreaUnion :: "bool \<Rightarrow> f32 \<Rightarrow> shape_union \<Rightarrow> f32 option" where
  "add_AreaUnion fused Accum Shape =
     (case at_index AreaCTable (unat (Type Shape)) of
        None \<Rightarrow> None
      | Some c \<Rightarrow> Some (mul_add fused (fmul c (Width Shape)) (Height Shape) Accum))"

definition add_CornerAreaUnion :: "bool \<Rightarrow> f32 \<Rightarrow> shape_union \<Rightarrow> f32 option" where
  "add_CornerAreaUnion fused Accum Shape =
     (case at_index CornerAreaCTable (unat (Type Shape)) of
        None \<Rightarrow> None
      | Some c \<Rightarrow> Some (mul_add fused (fmul c (Width Shape)) (Height Shape) Accum))"

definition TotalAreaUnion :: "bool \<Rightarrow> u32 \<Rightarrow> shape_union list \<Rightarrow> f32 option" where
  "TotalAreaUnion fused ShapeCount Shapes =
     accum_loop (add_AreaUnion fused) ShapeCount Shapes 0 F0"

definition TotalAreaUnion4 :: "bool \<Rightarrow> u32 \<Rightarrow> shape_union list \<Rightarrow> f32 option" where
  "TotalAreaUnion4 fused ShapeCount Shapes =
     sum_accums (accum4_loop (add_AreaUnion fused) (ShapeCount div 4) Shapes (F0, F0, F0, F0))"

definition CornerAreaUnion :: "bool \<Rightarrow> u32 \<Rightarrow> shape_union list \<Rightarrow> f32 option" where
  "CornerAreaUnion fused ShapeCount Shapes =
     accum_loop (add_CornerAreaUnion fused) ShapeCount Shapes 0 F0"

definition CornerAreaUnion4 :: "bool \<Rightarrow> u32 \<Rightarrow> shape_union list \<Rightarrow> f32 option" where
  "CornerAreaUnion4 fused ShapeCount Shapes =
     sum_accums (accum4_loop (add_CornerAreaUnion fused) (ShapeCount div 4) Shapes
                   (F0, F0, F0, F0))"

section \<open>clean_code.cpp\<close>

text \<open>
  The loop bodies, through a pointer. \<^verbatim>\<open>Accum += Shapes[i]->Area()\<close> adds the value a
  virtual call returns. In
  \<^verbatim>\<open>Accum += (1.0f / (1.0f + (f32)Shapes[i]->CornerCount())) * Shapes[i]->Area()\<close> the
  product of the weight and the returned area stands next to the addition.
\<close>

definition add_AreaVTBL :: "heap \<Rightarrow> f32 \<Rightarrow> shape_ptr \<Rightarrow> f32 option" where
  "add_AreaVTBL h Accum p =
     (case h p of None \<Rightarrow> None | Some obj \<Rightarrow> Some (fadd Accum (Area obj)))"

definition add_CornerVTBL :: "bool \<Rightarrow> heap \<Rightarrow> f32 \<Rightarrow> shape_ptr \<Rightarrow> f32 option" where
  "add_CornerVTBL fused h Accum p =
     (case h p of
        None \<Rightarrow> None
      | Some obj \<Rightarrow>
          Some (mul_add fused (fdiv F1 (fadd F1 (u32_to_f32 (CornerCount obj)))) (Area obj)
                  Accum))"

definition TotalAreaVTBL :: "heap \<Rightarrow> u32 \<Rightarrow> shape_ptr list \<Rightarrow> f32 option" where
  "TotalAreaVTBL h ShapeCount Shapes = accum_loop (add_AreaVTBL h) ShapeCount Shapes 0 F0"

definition TotalAreaVTBL4 :: "heap \<Rightarrow> u32 \<Rightarrow> shape_ptr list \<Rightarrow> f32 option" where
  "TotalAreaVTBL4 h ShapeCount Shapes =
     sum_accums (accum4_loop (add_AreaVTBL h) (ShapeCount div 4) Shapes (F0, F0, F0, F0))"

definition CornerAreaVTBL :: "bool \<Rightarrow> heap \<Rightarrow> u32 \<Rightarrow> shape_ptr list \<Rightarrow> f32 option" where
  "CornerAreaVTBL fused h ShapeCount Shapes =
     accum_loop (add_CornerVTBL fused h) ShapeCount Shapes 0 F0"

definition CornerAreaVTBL4 :: "bool \<Rightarrow> heap \<Rightarrow> u32 \<Rightarrow> shape_ptr list \<Rightarrow> f32 option" where
  "CornerAreaVTBL4 fused h ShapeCount Shapes =
     sum_accums (accum4_loop (add_CornerVTBL fused h) (ShapeCount div 4) Shapes
                   (F0, F0, F0, F0))"

section \<open>optimized_clean_code.cpp\<close>

text \<open>
  An \<^verbatim>\<open>__m256\<close> is eight \<open>f32\<close> lanes, lane 0 first; an \<^verbatim>\<open>__m128\<close> is four. The
  intrinsics work lane by lane. \<^verbatim>\<open>_mm_prefetch\<close> is a hint with no effect on the
  result and is left out. A \<^verbatim>\<open>size_t\<close> index is a natural number: the loops stop
  at the size of the vector, far below \<open>2 ^ 64\<close>.
\<close>

type_synonym m128 = "f32 \<times> f32 \<times> f32 \<times> f32"
type_synonym m256 = "f32 \<times> f32 \<times> f32 \<times> f32 \<times> f32 \<times> f32 \<times> f32 \<times> f32"
type_synonym accs = "m256 \<times> m256 \<times> m256 \<times> m256 \<times> m256 \<times> m256 \<times> m256 \<times> m256"

definition mm256_setzero_ps :: m256 where
  "mm256_setzero_ps = (0, 0, 0, 0, 0, 0, 0, 0)"

fun mm256_add_ps :: "m256 \<Rightarrow> m256 \<Rightarrow> m256" where
  "mm256_add_ps (a0, a1, a2, a3, a4, a5, a6, a7) (b0, b1, b2, b3, b4, b5, b6, b7) =
     (fadd a0 b0, fadd a1 b1, fadd a2 b2, fadd a3 b3,
      fadd a4 b4, fadd a5 b5, fadd a6 b6, fadd a7 b7)"

text \<open>\<^verbatim>\<open>_mm256_fmadd_ps(a, b, c)\<close> is \<open>a * b + c\<close> in every lane.\<close>

fun mm256_fmadd_ps :: "m256 \<Rightarrow> m256 \<Rightarrow> m256 \<Rightarrow> m256" where
  "mm256_fmadd_ps (a0, a1, a2, a3, a4, a5, a6, a7) (b0, b1, b2, b3, b4, b5, b6, b7)
       (c0, c1, c2, c3, c4, c5, c6, c7) =
     (ffma a0 b0 c0, ffma a1 b1 c1, ffma a2 b2 c2, ffma a3 b3 c3,
      ffma a4 b4 c4, ffma a5 b5 c5, ffma a6 b6 c6, ffma a7 b7 c7)"

text \<open>\<^verbatim>\<open>_mm256_loadu_ps(&p[i])\<close> reads \<open>p[i]\<close> to \<open>p[i + 7]\<close>.\<close>

definition mm256_loadu_ps :: "f32 list \<Rightarrow> nat \<Rightarrow> m256" where
  "mm256_loadu_ps p i =
     (p ! i, p ! (i + 1), p ! (i + 2), p ! (i + 3),
      p ! (i + 4), p ! (i + 5), p ! (i + 6), p ! (i + 7))"

text \<open>\<^verbatim>\<open>_mm256_extractf128_ps(a, 1)\<close> is the upper half, the cast the lower half.\<close>

fun mm256_extractf128_ps_1 :: "m256 \<Rightarrow> m128" where
  "mm256_extractf128_ps_1 (a0, a1, a2, a3, a4, a5, a6, a7) = (a4, a5, a6, a7)"

fun mm256_castps256_ps128 :: "m256 \<Rightarrow> m128" where
  "mm256_castps256_ps128 (a0, a1, a2, a3, a4, a5, a6, a7) = (a0, a1, a2, a3)"

fun mm_add_ps :: "m128 \<Rightarrow> m128 \<Rightarrow> m128" where
  "mm_add_ps (a0, a1, a2, a3) (b0, b1, b2, b3) = (fadd a0 b0, fadd a1 b1, fadd a2 b2, fadd a3 b3)"

fun mm_hadd_ps :: "m128 \<Rightarrow> m128 \<Rightarrow> m128" where
  "mm_hadd_ps (a0, a1, a2, a3) (b0, b1, b2, b3) = (fadd a0 a1, fadd a2 a3, fadd b0 b1, fadd b2 b3)"

fun mm_cvtss_f32 :: "m128 \<Rightarrow> f32" where
  "mm_cvtss_f32 (a0, a1, a2, a3) = a0"

text \<open>The bulk loop of \<open>TotalAreaCollector\<close>: 64 elements a round, into 8 accumulators.\<close>

function TotalArea_bulk :: "f32 list \<Rightarrow> nat \<Rightarrow> accs \<Rightarrow> nat \<times> accs" where
  "TotalArea_bulk areas' i (sum0, sum1, sum2, sum3, sum4, sum5, sum6, sum7) =
     (if i + 63 < length areas' then
        TotalArea_bulk areas' (i + 64)
          (mm256_add_ps sum0 (mm256_loadu_ps areas' i),
           mm256_add_ps sum1 (mm256_loadu_ps areas' (i + 8)),
           mm256_add_ps sum2 (mm256_loadu_ps areas' (i + 16)),
           mm256_add_ps sum3 (mm256_loadu_ps areas' (i + 24)),
           mm256_add_ps sum4 (mm256_loadu_ps areas' (i + 32)),
           mm256_add_ps sum5 (mm256_loadu_ps areas' (i + 40)),
           mm256_add_ps sum6 (mm256_loadu_ps areas' (i + 48)),
           mm256_add_ps sum7 (mm256_loadu_ps areas' (i + 56)))
      else (i, sum0, sum1, sum2, sum3, sum4, sum5, sum6, sum7))"
  by pat_completeness auto
termination
  by (relation "measure (\<lambda>(areas', i, S). length areas' - i)") simp_all

text \<open>The combine step after the bulk loop, statement by statement.\<close>

definition combine8 :: "accs \<Rightarrow> m256" where
  "combine8 S =
     (case S of (sum0, sum1, sum2, sum3, sum4, sum5, sum6, sum7) \<Rightarrow>
        let sum0 = mm256_add_ps sum0 sum4;
            sum1 = mm256_add_ps sum1 sum5;
            sum2 = mm256_add_ps sum2 sum6;
            sum3 = mm256_add_ps sum3 sum7;
            sum0 = mm256_add_ps sum0 sum1;
            sum2 = mm256_add_ps sum2 sum3;
            sum0 = mm256_add_ps sum0 sum2
        in sum0)"

function TotalArea_rem :: "f32 list \<Rightarrow> nat \<Rightarrow> m256 \<Rightarrow> nat \<times> m256" where
  "TotalArea_rem areas' i sum0 =
     (if i + 7 < length areas' then
        TotalArea_rem areas' (i + 8) (mm256_add_ps sum0 (mm256_loadu_ps areas' i))
      else (i, sum0))"
  by pat_completeness auto
termination
  by (relation "measure (\<lambda>(areas', i, sum0). length areas' - i)") simp_all

text \<open>The horizontal sum of the last accumulator.\<close>

definition hsum :: "m256 \<Rightarrow> f32" where
  "hsum sum0 =
     (let high128 = mm256_extractf128_ps_1 sum0;
          low128 = mm256_castps256_ps128 sum0;
          sum128 = mm_add_ps high128 low128;
          sum128 = mm_hadd_ps sum128 sum128;
          sum128 = mm_hadd_ps sum128 sum128
      in mm_cvtss_f32 sum128)"

function TotalArea_tail :: "f32 list \<Rightarrow> nat \<Rightarrow> f32 \<Rightarrow> f32" where
  "TotalArea_tail areas' i Accum =
     (if i < length areas' then TotalArea_tail areas' (i + 1) (fadd Accum (areas' ! i))
      else Accum)"
  by pat_completeness auto
termination
  by (relation "measure (\<lambda>(areas', i, Accum). length areas' - i)") simp_all

definition zero_accs :: accs where
  "zero_accs =
     (mm256_setzero_ps, mm256_setzero_ps, mm256_setzero_ps, mm256_setzero_ps,
      mm256_setzero_ps, mm256_setzero_ps, mm256_setzero_ps, mm256_setzero_ps)"

definition TotalAreaCollector :: "AreaCollector \<Rightarrow> f32" where
  "TotalAreaCollector collector =
     (let areas' = AreaCollector.areas collector in
      case TotalArea_bulk areas' 0 zero_accs of (i, S) \<Rightarrow>
      case TotalArea_rem areas' i (combine8 S) of (i, sum0) \<Rightarrow>
        TotalArea_tail areas' i (hsum sum0))"

text \<open>
  \<open>CornerAreaCollector\<close> runs to the size of \<open>areas\<close> and reads \<open>weights\<close> at the same
  indices. \<open>weights\<close> is a vector of its own: where it is shorter than \<open>areas\<close> the read
  is past its end, undefined behaviour (\<open>None\<close>).
\<close>

function CornerArea_bulk :: "f32 list \<Rightarrow> f32 list \<Rightarrow> nat \<Rightarrow> accs \<Rightarrow> (nat \<times> accs) option" where
  "CornerArea_bulk areas' weights' i (sum0, sum1, sum2, sum3, sum4, sum5, sum6, sum7) =
     (if i + 63 < length areas' then
        if i + 63 < length weights' then
          CornerArea_bulk areas' weights' (i + 64)
            (mm256_fmadd_ps (mm256_loadu_ps areas' i) (mm256_loadu_ps weights' i) sum0,
             mm256_fmadd_ps (mm256_loadu_ps areas' (i + 8)) (mm256_loadu_ps weights' (i + 8)) sum1,
             mm256_fmadd_ps (mm256_loadu_ps areas' (i + 16)) (mm256_loadu_ps weights' (i + 16)) sum2,
             mm256_fmadd_ps (mm256_loadu_ps areas' (i + 24)) (mm256_loadu_ps weights' (i + 24)) sum3,
             mm256_fmadd_ps (mm256_loadu_ps areas' (i + 32)) (mm256_loadu_ps weights' (i + 32)) sum4,
             mm256_fmadd_ps (mm256_loadu_ps areas' (i + 40)) (mm256_loadu_ps weights' (i + 40)) sum5,
             mm256_fmadd_ps (mm256_loadu_ps areas' (i + 48)) (mm256_loadu_ps weights' (i + 48)) sum6,
             mm256_fmadd_ps (mm256_loadu_ps areas' (i + 56)) (mm256_loadu_ps weights' (i + 56)) sum7)
        else None
      else Some (i, sum0, sum1, sum2, sum3, sum4, sum5, sum6, sum7))"
  by pat_completeness auto
termination
  by (relation "measure (\<lambda>(areas', weights', i, S). length areas' - i)") simp_all

function CornerArea_rem :: "f32 list \<Rightarrow> f32 list \<Rightarrow> nat \<Rightarrow> m256 \<Rightarrow> (nat \<times> m256) option" where
  "CornerArea_rem areas' weights' i sum0 =
     (if i + 7 < length areas' then
        if i + 7 < length weights' then
          CornerArea_rem areas' weights' (i + 8)
            (mm256_fmadd_ps (mm256_loadu_ps areas' i) (mm256_loadu_ps weights' i) sum0)
        else None
      else Some (i, sum0))"
  by pat_completeness auto
termination
  by (relation "measure (\<lambda>(areas', weights', i, sum0). length areas' - i)") simp_all

text \<open>
  The scalar tail \<^verbatim>\<open>Accum += areas[i] * weights[i]\<close>: a product next to the addition,
  contracted where the build contracts. The intrinsics of the two loops before it are
  fused on every build.
\<close>

function CornerArea_tail ::
  "bool \<Rightarrow> f32 list \<Rightarrow> f32 list \<Rightarrow> nat \<Rightarrow> f32 \<Rightarrow> f32 option" where
  "CornerArea_tail fused areas' weights' i Accum =
     (if i < length areas' then
        if i < length weights' then
          CornerArea_tail fused areas' weights' (i + 1)
            (mul_add fused (areas' ! i) (weights' ! i) Accum)
        else None
      else Some Accum)"
  by pat_completeness auto
termination
  by (relation "measure (\<lambda>(fused, areas', weights', i, Accum). length areas' - i)") simp_all

definition CornerAreaCollector :: "bool \<Rightarrow> CornerCollector \<Rightarrow> f32 option" where
  "CornerAreaCollector fused collector =
     (let areas' = CornerCollector.areas collector; weights' = weights collector in
      case CornerArea_bulk areas' weights' 0 zero_accs of
        None \<Rightarrow> None
      | Some (i, S) \<Rightarrow>
      (case CornerArea_rem areas' weights' i (combine8 S) of
        None \<Rightarrow> None
      | Some (i, sum0) \<Rightarrow> CornerArea_tail fused areas' weights' i (hsum sum0)))"

section \<open>The specification's wording, for comparison\<close>

text \<open>
  The specification gives the corner-weighted contribution of a shape as its area
  divided by one plus its corner count, and the result as the sum of the contributions
  from the left.
\<close>

definition spec_CornerArea :: "('a \<Rightarrow> f32) \<Rightarrow> ('a \<Rightarrow> u32) \<Rightarrow> 'a list \<Rightarrow> f32" where
  "spec_CornerArea area corner_count Shapes =
     foldl (\<lambda>acc s. fadd acc (fdiv (area s) (fadd F1 (u32_to_f32 (corner_count s))))) F0 Shapes"

text \<open>
  The specification combines the eight accumulators by adjacent pairs at every stage:
  (0 + 1), (2 + 3), (4 + 5), (6 + 7), then the adjacent pairs of those, then the last pair.
\<close>

definition spec_combine8_adjacent :: "accs \<Rightarrow> m256" where
  "spec_combine8_adjacent S =
     (case S of (sum0, sum1, sum2, sum3, sum4, sum5, sum6, sum7) \<Rightarrow>
        mm256_add_ps
          (mm256_add_ps (mm256_add_ps sum0 sum1) (mm256_add_ps sum2 sum3))
          (mm256_add_ps (mm256_add_ps sum4 sum5) (mm256_add_ps sum6 sum7)))"

definition spec_TotalAreaCollector_adjacent :: "AreaCollector \<Rightarrow> f32" where
  "spec_TotalAreaCollector_adjacent collector =
     (let areas' = AreaCollector.areas collector in
      case TotalArea_bulk areas' 0 zero_accs of (i, S) \<Rightarrow>
      case TotalArea_rem areas' i (spec_combine8_adjacent S) of (i, sum0) \<Rightarrow>
        TotalArea_tail areas' i (hsum sum0))"

section \<open>Concrete inputs\<close>

text \<open>The heap that holds the objects of a list at the addresses 1, 2, ...\<close>

definition heap_of :: "shape_base list \<Rightarrow> heap" where
  "heap_of objs p = (if p = 0 then None else at_index objs (p - 1))"

text \<open>The flat record of a square, as \<^verbatim>\<open>bench.cpp\<close> builds it: the side in both fields.\<close>

definition flat_square :: "f32 \<Rightarrow> shape_union" where
  "flat_square side = \<lparr>Type = Shape_Square, Width = side, Height = side\<rparr>"

section \<open>Unfolding the loops\<close>

text \<open>
  The loop equations are unconditional; they are unfolded by name only, on concrete
  arguments or one step at a time.
\<close>

declare accum_loop.simps [simp del]
declare accum4_loop.simps [simp del]
declare TotalArea_bulk.simps [simp del]
declare TotalArea_rem.simps [simp del]
declare TotalArea_tail.simps [simp del]
declare CornerArea_bulk.simps [simp del]
declare CornerArea_rem.simps [simp del]
declare CornerArea_tail.simps [simp del]

section \<open>The arithmetic on the values used below\<close>

lemma F0_bits: "F0 = 0"
  by code_simp

lemma F1_bits: "F1 = 0x3F800000"
  by code_simp

lemma F0_5_bits: "F0_5 = 0x3F000000"
  by code_simp

lemma F3_bits: "F3 = 0x40400000"
  by code_simp

lemma F4_bits: "F4 = 0x40800000"
  by code_simp

lemma Pi32_bits: "Pi32 = 0x40490FDB"
  by code_simp

lemma add_0_0: "fadd 0 0 = 0"
  by code_simp

lemma add_0_1: "fadd 0 F1 = F1"
  by code_simp

lemma add_1_1: "fadd F1 F1 = 0x40000000"
  by code_simp

lemma add_2_2: "fadd 0x40000000 0x40000000 = 0x40800000"
  by code_simp

lemma add_4_4: "fadd 0x40800000 0x40800000 = 0x41000000"
  by code_simp

lemma add_8_8: "fadd 0x41000000 0x41000000 = 0x41800000"
  by code_simp

lemma add_16_16: "fadd 0x41800000 0x41800000 = 0x42000000"
  by code_simp

lemma add_32_32: "fadd 0x42000000 0x42000000 = 0x42800000"
  by code_simp

lemma add_64_1: "fadd 0x42800000 F1 = round_f32 65 1 0"
  by code_simp

lemma F65_bits: "round_f32 65 1 0 = 0x42820000"
  by code_simp

text \<open>
  Some known values of binary32 arithmetic, as a check of the model: \<open>0.1f\<close>, \<open>1/3\<close>,
  a tie that goes to the even neighbour, overflow to infinity, a subnormal result, the
  sum of the two zeros, and one fused multiply-add.
\<close>

lemma known_tenth: "round_f32 1 10 0 = 0x3DCCCCCD"
  by code_simp

lemma known_third: "fdiv F1 F3 = 0x3EAAAAAB"
  by code_simp

lemma known_tie_even: "fadd 0x4B800000 F1 = 0x4B800000"
  by code_simp

lemma known_next: "fadd 0x4B800000 0x40000000 = 0x4B800001"
  by code_simp

lemma known_overflow: "fmul 0x7F7FFFFF 0x7F7FFFFF = 0x7F800000"
  by code_simp

lemma known_subnormal: "fmul 0x00800001 F0_5 = 0x00400000"
  by code_simp

lemma known_zero_sum: "fadd 0x80000000 0 = 0"
  by code_simp

lemma known_fma: "ffma F3 F3 F1 = 0x41200000"
  by code_simp

section \<open>Rounding is exact on representable values\<close>

lemma pack_sign_mag: "pack (sign_of x) (mag_bits x) = x"
proof -
  have b: "0 \<le> uint x" "uint x < 2 ^ 32"
    using uint_lt2p [of x] by simp_all
  have "(if sign_of x then 2 ^ 31 + mag_bits x else mag_bits x) = uint x"
  proof (cases "sign_of x")
    case True
    then have ge: "2 ^ 31 \<le> uint x" by (simp add: sign_of_def)
    have "uint x mod 2 ^ 31 = (uint x - 2 ^ 31) mod 2 ^ 31"
      by (simp only: minus_mod_self2)
    also have "\<dots> = uint x - 2 ^ 31"
      using ge b by (intro mod_pos_pos_trivial) simp_all
    finally show ?thesis using True by (simp add: mag_bits_def)
  next
    case False
    then have "uint x < 2 ^ 31" by (simp add: sign_of_def)
    then have "uint x mod 2 ^ 31 = uint x"
      using b by (intro mod_pos_pos_trivial) simp_all
    then show ?thesis using False by (simp add: mag_bits_def)
  qed
  then show ?thesis
    by (simp add: pack_def)
qed

lemma bitlen_one: "bitlen 1 = 1"
  using bitlen_twopow_add_eq [of 0 0] by simp

lemma ilog2_int: "0 < n \<Longrightarrow> ilog2 n 1 = bitlen n - 1"
proof -
  assume pos: "0 < n"
  then have ge: "1 \<le> bitlen n"
    using bitlen_eq_zero_iff [of n] bitlen_nonneg [of n] by linarith
  have "2 ^ nat (bitlen n - 1) \<le> n"
    using bitlen_bounds [OF pos] by simp
  with ge show ?thesis
    by (simp add: ilog2_def scale2_def bitlen_one Let_def)
qed

lemma rne_exact: "0 < D \<Longrightarrow> rne (m * D) D = m"
  by (simp add: rne_def Let_def)

lemma round_mag_exact:
  assumes p: "0 \<le> p" "p < 0x7F800000"
  defines "m \<equiv> (if p < 2 ^ 23 then p else 2 ^ 23 + p mod 2 ^ 23)"
  defines "e \<equiv> (if p < 2 ^ 23 then - 149 else p div 2 ^ 23 - 150)"
  shows "round_mag (m * 2 ^ j) 1 (e - int j) = p"
proof (cases "p = 0")
  case True
  then show ?thesis by (simp add: round_mag_def m_def)
next
  case False
  with p have ppos: "0 < p" by simp
  have mpos: "0 < m"
    using ppos by (simp add: m_def add_pos_nonneg)
  then have npos: "0 < m * 2 ^ j" by simp
  have il: "ilog2 (m * 2 ^ j) 1 + (e - int j) - 23 = bitlen m + e - 24"
    using mpos by (simp add: ilog2_int [OF npos])
  have emax: "max (bitlen m + e - 24) (- 149) = e"
  proof (cases "p < 2 ^ 23")
    case True
    then have "bitlen m \<le> 23"
      by (simp add: m_def bitlen_le_iff_power)
    with True show ?thesis by (simp add: e_def)
  next
    case False
    then have lo: "2 ^ 23 \<le> m" by (simp add: m_def)
    have hi: "m < 2 ^ 24" using False by (simp add: m_def) 
    have "bitlen m \<le> 24" using hi by (simp add: bitlen_le_iff_power)
    moreover have "24 \<le> bitlen m" using lo by (simp add: bitlen_ge_iff_power)
    ultimately have "bitlen m = 24" by simp
    moreover have "1 \<le> p div 2 ^ 23" using False
      by (simp add: pos_imp_zdiv_pos_iff)
    ultimately show ?thesis using False by (simp add: e_def)
  qed
  have pat: "(e + 149) * 2 ^ 23 + m = p"
  proof (cases "p < 2 ^ 23")
    case True
    then show ?thesis by (simp add: e_def m_def)
  next
    case False
    have "p = p div 2 ^ 23 * 2 ^ 23 + p mod 2 ^ 23" by simp
    with False show ?thesis by (simp add: e_def m_def algebra_simps)
  qed
  have sc: "scale2 (m * 2 ^ j) 1 (e - (e - int j)) = (m * 2 ^ j, 2 ^ j)"
    by (simp add: scale2_def)
  have "round_mag (m * 2 ^ j) 1 (e - int j) = min ((e + 149) * 2 ^ 23 + m) 0x7F800000"
    unfolding round_mag_def Let_def il emax sc using npos by (simp add: rne_exact)
  also have "\<dots> = p"
    unfolding pat using p by simp
  finally show ?thesis .
qed

lemma mant_abs:
  "\<bar>mant x\<bar> = (if mag_bits x < 2 ^ 23 then mag_bits x else 2 ^ 23 + mag_bits x mod 2 ^ 23)"
proof -
  have "0 \<le> mag_bits x" by (simp add: mag_bits_def)
  then show ?thesis
    by (auto simp: mant_def Let_def)
qed

lemma fmul_one: "\<not> is_nan x \<Longrightarrow> fmul F1 x = x"
proof -
  assume nn: "\<not> is_nan x"
  have s1: "\<not> sign_of F1" "\<not> is_nan F1" "\<not> is_inf F1" "mag_bits F1 \<noteq> 0"
    by (simp_all add: F1_bits sign_of_def is_nan_def is_inf_def mag_bits_def)
  have m1: "mant F1 = 2 ^ 23" and e1: "expo F1 = - 23"
    by (simp_all add: F1_bits sign_of_def mag_bits_def mant_def expo_def)
  have nonneg: "0 \<le> mag_bits x" by (simp add: mag_bits_def)
  show ?thesis
  proof (cases "is_inf x")
    case True
    then have "mag_bits x = 0x7F800000" by (simp add: is_inf_def)
    then have "fmul F1 x = pack (sign_of x) (mag_bits x)"
      using s1 nn True by (simp add: fmul_def)
    then show ?thesis by (simp add: pack_sign_mag)
  next
    case False
    with nn have fin: "mag_bits x < 0x7F800000"
      by (simp add: is_nan_def is_inf_def)
    have a: "\<bar>mant F1 * mant x\<bar> = \<bar>mant x\<bar> * 2 ^ 23"
      by (simp add: m1 abs_mult)
    have b: "expo F1 + expo x = expo x - int 23"
      by (simp add: e1)
    have "round_mag (\<bar>mant x\<bar> * 2 ^ 23) 1 (expo x - int 23) = mag_bits x"
      unfolding mant_abs expo_def Let_def
      by (rule round_mag_exact [OF nonneg fin])
    then have "round_mag \<bar>mant F1 * mant x\<bar> 1 (expo F1 + expo x) = mag_bits x"
      by (simp only: a b)
    then have "fmul F1 x = pack (sign_of x) (mag_bits x)"
      using s1 nn False by (simp add: fmul_def)
    then show ?thesis by (simp add: pack_sign_mag)
  qed
qed

section \<open>The scalar loops\<close>

lemma unat_succ_below: "(i::u32) < n \<Longrightarrow> unat (i + 1) = Suc (unat i)"
proof -
  assume lt: "i < n"
  have "unat n < 2 ^ 32" using unsigned_less [of n] by simp
  with lt have "unat i + unat (1::u32) < 2 ^ LENGTH(32)"
    by (simp add: word_less_nat_alt)
  then have "unat (i + 1) = unat i + unat (1::u32)"
    by (simp only: unat_add_lem)
  then show ?thesis by simp
qed

lemma accum_loop_foldl:
  assumes "unat i \<le> unat ShapeCount" "unat ShapeCount \<le> length Shapes"
    and "\<And>k acc. k < unat ShapeCount \<Longrightarrow> upd acc (Shapes ! k) = Some (g acc (Shapes ! k))"
  shows "accum_loop upd ShapeCount Shapes i Accum =
    Some (foldl g Accum (drop (unat i) (take (unat ShapeCount) Shapes)))"
  using assms
proof (induction upd ShapeCount Shapes i Accum rule: accum_loop.induct)
  case (1 upd ShapeCount Shapes i Accum)
  show ?case
  proof (cases "i < ShapeCount")
    case True
    then have lt: "unat i < unat ShapeCount" by (simp add: word_less_nat_alt)
    with "1.prems" have inb: "unat i < length Shapes" by simp
    have c: "upd Accum (Shapes ! unat i) = Some (g Accum (Shapes ! unat i))"
      using "1.prems"(3) lt by simp
    have b: "Option.bind (at_index Shapes (unat i)) (upd Accum) = Some (g Accum (Shapes ! unat i))"
      using inb c by (simp add: at_index_def)
    have suc: "unat (i + 1) = Suc (unat i)" using True by (rule unat_succ_below)
    have ih: "accum_loop upd ShapeCount Shapes (i + 1) (g Accum (Shapes ! unat i)) =
      Some (foldl g (g Accum (Shapes ! unat i))
        (drop (unat (i + 1)) (take (unat ShapeCount) Shapes)))"
      using "1.IH" [OF True b] "1.prems" lt suc by simp
    have d: "drop (unat i) (take (unat ShapeCount) Shapes)
        = Shapes ! unat i # drop (Suc (unat i)) (take (unat ShapeCount) Shapes)"
      using lt inb by (simp add: Cons_nth_drop_Suc [symmetric])
    show ?thesis
      using True b ih by (subst accum_loop.simps) (simp add: d suc)
  next
    case False
    with "1.prems" have "unat i = unat ShapeCount"
      by (simp add: word_less_nat_alt)
    with False show ?thesis
      by (subst accum_loop.simps) simp
  qed
qed

lemma accum_loop_all:
  assumes "length Shapes = unat ShapeCount"
    and "\<And>acc s. s \<in> set Shapes \<Longrightarrow> upd acc s = Some (g acc s)"
  shows "accum_loop upd ShapeCount Shapes 0 Accum = Some (foldl g Accum Shapes)"
proof -
  have "accum_loop upd ShapeCount Shapes 0 Accum =
    Some (foldl g Accum (drop (unat (0 :: u32)) (take (unat ShapeCount) Shapes)))"
    using assms by (intro accum_loop_foldl) simp_all
  then show ?thesis using assms(1) by simp
qed

lemma at_index_take: "k < n \<Longrightarrow> at_index (take n xs) k = at_index xs k"
  by (simp add: at_index_def)

lemma accum4_loop_take:
  "accum4_loop upd Count Shapes A = accum4_loop upd Count (take (4 * unat Count) Shapes) A"
proof (induction upd Count Shapes A rule: accum4_loop.induct)
  case (1 upd Count Shapes Accum0 Accum1 Accum2 Accum3)
  show ?case
  proof (cases "Count = 0")
    case True
    then show ?thesis by (simp add: accum4_loop.simps)
  next
    case False
    then have pos: "0 < unat Count" by (simp add: unat_gt_0)
    have u: "unat (Count - 1) = unat Count - 1"
      using False by (simp add: unat_minus_one)
    have dt: "drop 4 (take (4 * unat Count) Shapes) = take (4 * unat (Count - 1)) (drop 4 Shapes)"
      using pos by (simp add: drop_take u diff_mult_distrib2)
    have ix: "\<And>k. k < 4 \<Longrightarrow> at_index (take (4 * unat Count) Shapes) k = at_index Shapes k"
      using pos by (intro at_index_take) simp
    show ?thesis
      apply (subst accum4_loop.simps)
      apply (subst (2) accum4_loop.simps)
      using False "1.IH" [OF False]
      by (simp add: ix dt split: option.splits)
  qed
qed

lemma foldl_upt_Suc_shift:
  "foldl f a [0..<Suc n] = foldl (\<lambda>acc k. f acc (Suc k)) (f a 0) [0..<n]"
proof -
  have "[0..<Suc n] = 0 # map Suc [0..<n]"
    by (simp add: upt_conv_Cons map_Suc_upt del: upt_Suc)
  then show ?thesis
    by (simp add: foldl_map del: upt_Suc)
qed

lemma lane_shift:
  assumes "4 \<le> length xs"
  shows "foldl (\<lambda>acc k. g acc (xs ! (4 * k + j))) a [0..<Suc n] =
         foldl (\<lambda>acc k. g acc (drop 4 xs ! (4 * k + j))) (g a (xs ! j)) [0..<n]"
proof -
  have "\<And>k. drop 4 xs ! (4 * k + j) = xs ! (4 * Suc k + j)"
    using assms by (simp add: nth_drop add.assoc)
  then show ?thesis
    by (simp only: foldl_upt_Suc_shift) simp
qed

lemma accum4_loop_lanes:
  assumes "4 * unat Count \<le> length Shapes"
    and "\<And>k acc. k < 4 * unat Count \<Longrightarrow> upd acc (Shapes ! k) = Some (g acc (Shapes ! k))"
  shows "accum4_loop upd Count Shapes (A0, A1, A2, A3) =
     Some (foldl (\<lambda>acc k. g acc (Shapes ! (4 * k + 0))) A0 [0..<unat Count],
           foldl (\<lambda>acc k. g acc (Shapes ! (4 * k + 1))) A1 [0..<unat Count],
           foldl (\<lambda>acc k. g acc (Shapes ! (4 * k + 2))) A2 [0..<unat Count],
           foldl (\<lambda>acc k. g acc (Shapes ! (4 * k + 3))) A3 [0..<unat Count])"
  using assms
proof (induction upd Count Shapes "(A0, A1, A2, A3)" arbitrary: A0 A1 A2 A3
    rule: accum4_loop.induct)
  case (1 upd Count Shapes Accum0 Accum1 Accum2 Accum3)
  show ?case
  proof (cases "Count = 0")
    case True
    then show ?thesis by (simp add: accum4_loop.simps)
  next
    case False
    then have pos: "0 < unat Count" by (simp add: unat_gt_0)
    have u: "unat (Count - 1) = unat Count - 1"
      using False by (simp add: unat_minus_one)
    then have un: "unat Count = Suc (unat (Count - 1))" using pos by simp
    have len: "4 \<le> length Shapes" using "1.prems"(1) pos by simp
    have b: "\<And>j acc. j < 4 \<Longrightarrow>
        Option.bind (at_index Shapes j) (upd acc) = Some (g acc (Shapes ! j))"
      using len "1.prems"(2) pos by (simp add: at_index_def)
    have b0: "Option.bind (at_index Shapes 0) (upd Accum0) = Some (g Accum0 (Shapes ! 0))"
      and b1: "Option.bind (at_index Shapes 1) (upd Accum1) = Some (g Accum1 (Shapes ! 1))"
      and b2: "Option.bind (at_index Shapes 2) (upd Accum2) = Some (g Accum2 (Shapes ! 2))"
      and b3: "Option.bind (at_index Shapes 3) (upd Accum3) = Some (g Accum3 (Shapes ! 3))"
      by (simp_all add: b)
    have p1: "4 * unat (Count - 1) \<le> length (drop 4 Shapes)"
      using "1.prems"(1) u by simp
    have p2: "\<And>k acc. k < 4 * unat (Count - 1) \<Longrightarrow>
        upd acc (drop 4 Shapes ! k) = Some (g acc (drop 4 Shapes ! k))"
      using "1.prems"(2) u len by (simp add: nth_drop)
    have step: "accum4_loop upd Count Shapes (Accum0, Accum1, Accum2, Accum3) =
        accum4_loop upd (Count - 1) (drop 4 Shapes)
          (g Accum0 (Shapes ! 0), g Accum1 (Shapes ! 1),
           g Accum2 (Shapes ! 2), g Accum3 (Shapes ! 3))"
      by (subst accum4_loop.simps) (simp only: False b0 b1 b2 b3 if_False option.case)
    have l0: "foldl (\<lambda>acc k. g acc (Shapes ! (4 * k + 0))) Accum0 [0..<unat Count] =
        foldl (\<lambda>acc k. g acc (drop 4 Shapes ! (4 * k + 0)))
          (g Accum0 (Shapes ! 0)) [0..<unat (Count - 1)]"
      by (subst un) (rule lane_shift [OF len])
    have l1: "foldl (\<lambda>acc k. g acc (Shapes ! (4 * k + 1))) Accum1 [0..<unat Count] =
        foldl (\<lambda>acc k. g acc (drop 4 Shapes ! (4 * k + 1)))
          (g Accum1 (Shapes ! 1)) [0..<unat (Count - 1)]"
      by (subst un) (rule lane_shift [OF len])
    have l2: "foldl (\<lambda>acc k. g acc (Shapes ! (4 * k + 2))) Accum2 [0..<unat Count] =
        foldl (\<lambda>acc k. g acc (drop 4 Shapes ! (4 * k + 2)))
          (g Accum2 (Shapes ! 2)) [0..<unat (Count - 1)]"
      by (subst un) (rule lane_shift [OF len])
    have l3: "foldl (\<lambda>acc k. g acc (Shapes ! (4 * k + 3))) Accum3 [0..<unat Count] =
        foldl (\<lambda>acc k. g acc (drop 4 Shapes ! (4 * k + 3)))
          (g Accum3 (Shapes ! 3)) [0..<unat (Count - 1)]"
      by (subst un) (rule lane_shift [OF len])
    show ?thesis
      unfolding step l0 l1 l2 l3
      by (rule "1.hyps" [OF False b0 b1 b2 b3 p1 p2])
  qed
qed

lemma four_way_lanes:
  assumes len: "4 * unat Count \<le> length Shapes"
    and c: "\<And>acc s. s \<in> set Shapes \<Longrightarrow> upd acc s = Some (g acc s)"
  shows "\<exists>R0 R1 R2 R3.
      accum_loop upd Count (map (\<lambda>k. Shapes ! (4 * k + 0)) [0..<unat Count]) 0 F0 = Some R0
    \<and> accum_loop upd Count (map (\<lambda>k. Shapes ! (4 * k + 1)) [0..<unat Count]) 0 F0 = Some R1
    \<and> accum_loop upd Count (map (\<lambda>k. Shapes ! (4 * k + 2)) [0..<unat Count]) 0 F0 = Some R2
    \<and> accum_loop upd Count (map (\<lambda>k. Shapes ! (4 * k + 3)) [0..<unat Count]) 0 F0 = Some R3
    \<and> sum_accums (accum4_loop upd Count Shapes (F0, F0, F0, F0))
        = Some (fadd (fadd (fadd R0 R1) R2) R3)"
proof -
  define R where "R j = foldl (\<lambda>acc k. g acc (Shapes ! (4 * k + j))) F0 [0..<unat Count]"
    for j
  have lane: "accum_loop upd Count (map (\<lambda>k. Shapes ! (4 * k + j)) [0..<unat Count]) 0 F0
      = Some (R j)" if "j < 4" for j
  proof -
    have "\<And>acc s. s \<in> set (map (\<lambda>k. Shapes ! (4 * k + j)) [0..<unat Count]) \<Longrightarrow>
        upd acc s = Some (g acc s)"
      using len that by (auto intro!: c nth_mem)
    then have "accum_loop upd Count (map (\<lambda>k. Shapes ! (4 * k + j)) [0..<unat Count]) 0 F0
      = Some (foldl g F0 (map (\<lambda>k. Shapes ! (4 * k + j)) [0..<unat Count]))"
      by (intro accum_loop_all) simp_all
    then show ?thesis by (simp add: foldl_map R_def)
  qed
  have k: "\<And>k acc. k < 4 * unat Count \<Longrightarrow> upd acc (Shapes ! k) = Some (g acc (Shapes ! k))"
    using len by (intro c nth_mem) simp
  have "accum4_loop upd Count Shapes (F0, F0, F0, F0) = Some (R 0, R 1, R 2, R 3)"
    unfolding R_def by (rule accum4_loop_lanes [where g = g]) (rule len, erule k)
  then have four: "sum_accums (accum4_loop upd Count Shapes (F0, F0, F0, F0)) =
      Some (fadd (fadd (fadd (R 0) (R 1)) (R 2)) (R 3))"
    by (simp only: sum_accums_def option.case prod.case)
  have l0: "accum_loop upd Count (map (\<lambda>k. Shapes ! (4 * k + 0)) [0..<unat Count]) 0 F0
      = Some (R 0)"
    by (rule lane) simp
  have l1: "accum_loop upd Count (map (\<lambda>k. Shapes ! (4 * k + 1)) [0..<unat Count]) 0 F0
      = Some (R 1)"
    by (rule lane) simp
  have l2: "accum_loop upd Count (map (\<lambda>k. Shapes ! (4 * k + 2)) [0..<unat Count]) 0 F0
      = Some (R 2)"
    by (rule lane) simp
  have l3: "accum_loop upd Count (map (\<lambda>k. Shapes ! (4 * k + 3)) [0..<unat Count]) 0 F0
      = Some (R 3)"
    by (rule lane) simp
  show ?thesis
    by (rule exI [of _ "R 0"], rule exI [of _ "R 1"], rule exI [of _ "R 2"],
        rule exI [of _ "R 3"]) (intro conjI l0 l1 l2 l3 four)
qed

lemma sum_accums_take:
  "sum_accums (accum4_loop upd (N div 4) Shapes A) =
   sum_accums (accum4_loop upd ((4 * (N div 4)) div 4)
                 (take (4 * (unat N div 4)) Shapes) A)"
proof -
  have "unat (N div 4) * unat (4 :: u32) \<le> unat N"
    by (simp add: unat_div)
  also have "\<dots> < 2 ^ LENGTH(32)"
    by (rule unsigned_less)
  finally have "(N div 4) * 4 div 4 = N div 4"
    by (intro word_div_mult) simp_all
  then have d: "(4 * (N div 4)) div 4 = N div 4"
    by (simp add: mult.commute)
  have "accum4_loop upd (N div 4) Shapes A =
        accum4_loop upd (N div 4) (take (4 * unat (N div 4)) Shapes) A"
    by (rule accum4_loop_take)
  then show ?thesis
    by (simp add: d unat_div)
qed

section \<open>One shape, three strategies\<close>

lemma f32_nonneg_not_nan: "f32_nonneg x \<Longrightarrow> \<not> is_nan x"
  by (simp add: f32_nonneg_def)

lemma f32_nonneg_F3: "f32_nonneg F3"
  by (simp add: f32_nonneg_def F3_bits is_nan_def sign_of_def mag_bits_def)

lemma f32_nonneg_F4: "f32_nonneg F4"
  by (simp add: f32_nonneg_def F4_bits is_nan_def sign_of_def mag_bits_def)

text \<open>
  C1. For a shape with non-negative parameters, the polymorphic methods, the switch
  functions and the table function give the same \<open>f32\<close> area, bit for bit, and the
  same \<open>u32\<close> corner count. The flat record of a square or a circle holds the one
  measurement in both \<open>Width\<close> and \<open>Height\<close>. The table's factor \<open>1.0f\<close> changes
  nothing, as the product by \<open>1.0f\<close> is exact.
\<close>

theorem strategies_agree_per_shape:
  assumes "f32_nonneg w" and "f32_nonneg h"
  shows
    "GetAreaSwitch \<lparr>Type = Shape_Square, Width = w, Height = w\<rparr> = Area (square w)
   \<and> GetAreaUnion \<lparr>Type = Shape_Square, Width = w, Height = w\<rparr> = Some (Area (square w))
   \<and> GetCornerCountSwitch Shape_Square = CornerCount (square w)
   \<and> GetAreaSwitch \<lparr>Type = Shape_Rectangle, Width = w, Height = h\<rparr> = Area (rectangle w h)
   \<and> GetAreaUnion \<lparr>Type = Shape_Rectangle, Width = w, Height = h\<rparr> = Some (Area (rectangle w h))
   \<and> GetCornerCountSwitch Shape_Rectangle = CornerCount (rectangle w h)
   \<and> GetAreaSwitch \<lparr>Type = Shape_Triangle, Width = w, Height = h\<rparr> = Area (triangle w h)
   \<and> GetAreaUnion \<lparr>Type = Shape_Triangle, Width = w, Height = h\<rparr> = Some (Area (triangle w h))
   \<and> GetCornerCountSwitch Shape_Triangle = CornerCount (triangle w h)
   \<and> GetAreaSwitch \<lparr>Type = Shape_Circle, Width = w, Height = w\<rparr> = Area (circle w)
   \<and> GetAreaUnion \<lparr>Type = Shape_Circle, Width = w, Height = w\<rparr> = Some (Area (circle w))
   \<and> GetCornerCountSwitch Shape_Circle = CornerCount (circle w)"
proof -
  have one: "fmul F1 w = w"
    using assms(1) by (intro fmul_one f32_nonneg_not_nan)
  show ?thesis
    by (simp add: GetAreaSwitch_def GetAreaUnion_def GetCornerCountSwitch_def
          Shape_Square_def Shape_Rectangle_def Shape_Triangle_def Shape_Circle_def
          AreaCTable_def at_index_def one)
qed

theorem strategies_agree_per_shape_witness:
  "f32_nonneg F3 \<and> f32_nonneg F4
   \<and> GetAreaSwitch \<lparr>Type = Shape_Square, Width = F3, Height = F3\<rparr> = Area (square F3)
   \<and> GetAreaUnion \<lparr>Type = Shape_Square, Width = F3, Height = F3\<rparr> = Some (Area (square F3))
   \<and> GetAreaUnion \<lparr>Type = Shape_Rectangle, Width = F3, Height = F4\<rparr> = Some (Area (rectangle F3 F4))
   \<and> GetAreaUnion \<lparr>Type = Shape_Triangle, Width = F3, Height = F4\<rparr> = Some (Area (triangle F3 F4))
   \<and> GetAreaUnion \<lparr>Type = Shape_Circle, Width = F3, Height = F3\<rparr> = Some (Area (circle F3))"
  using strategies_agree_per_shape [OF f32_nonneg_F3 f32_nonneg_F4] f32_nonneg_F3 f32_nonneg_F4
  by simp

lemma mul_3_3: "fmul F3 F3 = 0x41100000"
  by code_simp

lemma mul_1_3_4: "fmul (fmul F1 F3) F4 = 0x41400000"
  by code_simp

text \<open>
  C10. On two records tagged square or circle that agree on \<open>Width\<close>, \<open>GetAreaSwitch\<close>
  returns the same area whatever their \<open>Height\<close>s, while \<open>GetAreaUnion\<close> multiplies by
  \<open>Height\<close>: on the square record with \<open>Width = 3.0f\<close> and \<open>Height = 4.0f\<close> the switch
  gives \<open>9.0f\<close> and the table \<open>12.0f\<close>.
\<close>

theorem switch_ignores_Height:
  "(\<forall>a b. Type a = Type b \<and> (Type a = Shape_Square \<or> Type a = Shape_Circle)
        \<and> Width a = Width b \<longrightarrow> GetAreaSwitch a = GetAreaSwitch b)
   \<and> (\<forall>s. Type s = Shape_Square \<or> Type s = Shape_Circle \<longrightarrow>
        GetAreaUnion s = Some (fmul (fmul (AreaCTable ! unat (Type s)) (Width s)) (Height s)))
   \<and> GetAreaSwitch \<lparr>Type = Shape_Square, Width = F3, Height = F4\<rparr> = 0x41100000
   \<and> GetAreaUnion \<lparr>Type = Shape_Square, Width = F3, Height = F4\<rparr> = Some 0x41400000"
proof (intro conjI allI impI)
  fix a b :: shape_union
  assume "Type a = Type b \<and> (Type a = Shape_Square \<or> Type a = Shape_Circle) \<and> Width a = Width b"
  then show "GetAreaSwitch a = GetAreaSwitch b"
    by (auto simp: GetAreaSwitch_def Shape_Square_def Shape_Rectangle_def Shape_Triangle_def
          Shape_Circle_def)
next
  fix s :: shape_union
  assume "Type s = Shape_Square \<or> Type s = Shape_Circle"
  then show "GetAreaUnion s = Some (fmul (fmul (AreaCTable ! unat (Type s)) (Width s)) (Height s))"
    by (auto simp: GetAreaUnion_def at_index_def AreaCTable_def Shape_Square_def Shape_Circle_def)
next
  show "GetAreaSwitch \<lparr>Type = Shape_Square, Width = F3, Height = F4\<rparr> = 0x41100000"
    by (simp add: GetAreaSwitch_def mul_3_3)
next
  show "GetAreaUnion \<lparr>Type = Shape_Square, Width = F3, Height = F4\<rparr> = Some 0x41400000"
    by (simp add: GetAreaUnion_def at_index_def AreaCTable_def Shape_Square_def mul_1_3_4)
qed

theorem switch_ignores_Height_witness:
  "GetAreaSwitch \<lparr>Type = Shape_Circle, Width = F3, Height = F4\<rparr>
     = GetAreaSwitch \<lparr>Type = Shape_Circle, Width = F3, Height = F1\<rparr>
   \<and> GetAreaUnion \<lparr>Type = Shape_Circle, Width = F3, Height = F4\<rparr>
     = Some (fmul (fmul (AreaCTable ! unat Shape_Circle) F3) F4)"
proof -
  have a: "GetAreaSwitch \<lparr>Type = Shape_Circle, Width = F3, Height = F4\<rparr>
     = GetAreaSwitch \<lparr>Type = Shape_Circle, Width = F3, Height = F1\<rparr>"
    using switch_ignores_Height by simp
  have b: "GetAreaUnion \<lparr>Type = Shape_Circle, Width = F3, Height = F4\<rparr>
     = Some (fmul (fmul (AreaCTable ! unat Shape_Circle) F3) F4)"
    using switch_ignores_Height by simp
  from a b show ?thesis by simp
qed

lemma tag_out_of_range:
  fixes T :: u32
  assumes "T \<noteq> 0" "T \<noteq> 1" "T \<noteq> 2" "T \<noteq> 3"
  shows "4 \<le> unat T"
proof (rule ccontr)
  assume "\<not> 4 \<le> unat T"
  then have "unat T = 0 \<or> unat T = 1 \<or> unat T = 2 \<or> unat T = 3" by arith
  moreover have "T = word_of_nat (unat T)" by simp
  ultimately have "T = word_of_nat 0 \<or> T = word_of_nat 1 \<or> T = word_of_nat 2 \<or> T = word_of_nat 3"
    by metis
  with assms show False by simp
qed

lemma corner_term_zero: "fmul (fdiv F1 (fadd F1 (u32_to_f32 0))) F0 = F0"
  by code_simp

text \<open>
  C4, as amended. A record whose tag is none of the four shape tags gets the area \<open>0.0f\<close>,
  the corner count 0 and the corner-weighted term \<open>0.0f\<close> from the switch functions. The
  table functions have no default: they index their four-entry tables with the tag, and
  such a tag is past the end of both tables (undefined behaviour), so they produce no
  zero.
\<close>

theorem out_of_range_tag:
  assumes "Type Shape \<noteq> Shape_Square" "Type Shape \<noteq> Shape_Rectangle"
    "Type Shape \<noteq> Shape_Triangle" "Type Shape \<noteq> Shape_Circle"
  shows "GetAreaSwitch Shape = F0
       \<and> GetCornerCountSwitch (Type Shape) = 0
       \<and> CornerTermSwitch Shape = F0
       \<and> GetAreaUnion Shape = None
       \<and> GetCornerAreaUnion Shape = None"
proof -
  have "4 \<le> unat (Type Shape)"
    using assms
    by (intro tag_out_of_range)
       (simp_all add: Shape_Square_def Shape_Rectangle_def Shape_Triangle_def Shape_Circle_def)
  then have t: "at_index AreaCTable (unat (Type Shape)) = None"
    "at_index CornerAreaCTable (unat (Type Shape)) = None"
    by (simp_all add: at_index_def AreaCTable_def CornerAreaCTable_def)
  have a: "GetAreaSwitch Shape = F0" and c: "GetCornerCountSwitch (Type Shape) = 0"
    using assms by (simp_all add: GetAreaSwitch_def GetCornerCountSwitch_def)
  have "CornerTermSwitch Shape = F0"
    by (simp add: CornerTermSwitch_def a c corner_term_zero)
  with a c t show ?thesis
    by (simp add: GetAreaUnion_def GetCornerAreaUnion_def)
qed

theorem out_of_range_tag_witness:
  "GetAreaSwitch \<lparr>Type = Shape_Count, Width = F3, Height = F4\<rparr> = F0
   \<and> CornerTermSwitch \<lparr>Type = Shape_Count, Width = F3, Height = F4\<rparr> = F0
   \<and> GetAreaUnion \<lparr>Type = Shape_Count, Width = F3, Height = F4\<rparr> = None"
  using out_of_range_tag [of "\<lparr>Type = Shape_Count, Width = F3, Height = F4\<rparr>"]
  by (simp add: Shape_Count_def Shape_Square_def Shape_Rectangle_def Shape_Triangle_def
        Shape_Circle_def)

text \<open>
  C4 as stated fails for the table strategy: on a record tagged \<open>Shape_Count\<close>, neither
  table function returns \<open>0.0f\<close>.
\<close>

theorem table_has_no_default_counterexample:
  "GetAreaUnion \<lparr>Type = Shape_Count, Width = F1, Height = F1\<rparr> \<noteq> Some F0
   \<and> GetCornerAreaUnion \<lparr>Type = Shape_Count, Width = F1, Height = F1\<rparr> \<noteq> Some F0"
  by (simp add: GetAreaUnion_def GetCornerAreaUnion_def at_index_def AreaCTable_def
        CornerAreaCTable_def Shape_Count_def)

section \<open>The strategies over a collection\<close>

text \<open>
  Without contraction the loop bodies add the value of the per-shape functions; with it,
  the last product of that value is fused into the addition.
\<close>

lemma add_CornerSwitch_unfused:
  "add_CornerSwitch False Accum Shape = Some (fadd Accum (CornerTermSwitch Shape))"
  by (simp add: add_CornerSwitch_def CornerTermSwitch_def mul_add_def)

lemma add_AreaUnion_unfused:
  "add_AreaUnion False Accum Shape = map_option (fadd Accum) (GetAreaUnion Shape)"
  by (simp add: add_AreaUnion_def GetAreaUnion_def mul_add_def split: option.splits)

lemma add_CornerAreaUnion_unfused:
  "add_CornerAreaUnion False Accum Shape = map_option (fadd Accum) (GetCornerAreaUnion Shape)"
  by (simp add: add_CornerAreaUnion_def GetCornerAreaUnion_def mul_add_def split: option.splits)

lemma add_CornerVTBL_valid:
  "h p \<noteq> None \<Longrightarrow>
     add_CornerVTBL fused h Accum p =
       Some (mul_add fused (fdiv F1 (fadd F1 (u32_to_f32 (CornerCount (the (h p))))))
               (Area (the (h p))) Accum)"
  by (auto simp: add_CornerVTBL_def)

lemma add_AreaVTBL_valid:
  "h p \<noteq> None \<Longrightarrow> add_AreaVTBL h Accum p = Some (fadd Accum (Area (the (h p))))"
  by (auto simp: add_AreaVTBL_def)

lemma add_CornerAreaUnion_valid:
  "Type s < Shape_Count \<Longrightarrow>
     add_CornerAreaUnion fused Accum s =
       Some (mul_add fused (fmul (CornerAreaCTable ! unat (Type s)) (Width s)) (Height s) Accum)"
  by (simp add: add_CornerAreaUnion_def at_index_def CornerAreaCTable_def Shape_Count_def
        word_less_nat_alt)

lemma add_AreaUnion_valid:
  "Type s < Shape_Count \<Longrightarrow>
     add_AreaUnion fused Accum s =
       Some (mul_add fused (fmul (AreaCTable ! unat (Type s)) (Width s)) (Height s) Accum)"
  by (simp add: add_AreaUnion_def at_index_def AreaCTable_def Shape_Count_def
        word_less_nat_alt)

text \<open>
  C2, as amended. On a list of \<open>ShapeCount\<close> shapes every one-accumulator \<open>CornerArea\<close>
  function returns the result of one multiply-add a shape, from the left and starting at
  \<open>0.0f\<close>: \<open>Accum := w * Area + Accum\<close>. In \<open>CornerAreaVTBL\<close> and \<open>CornerAreaSwitch\<close>
  \<open>w\<close> is the reciprocal \<open>1.0f / (1.0f + CornerCount)\<close>, rounded, and \<open>Area\<close> the shape's
  rounded area; in \<open>CornerAreaUnion\<close> the factors are \<open>CornerAreaCTable[Type] * Width\<close>,
  rounded, and \<open>Height\<close>. Where the build contracts (\<open>fused\<close>) the multiply-add is one
  fused operation with a single rounding; otherwise the product is rounded and then added.
  The pointers must be valid and, for the table, the tags below \<open>Shape_Count\<close>.
\<close>

theorem CornerArea_one_way:
  "(length P = unat N \<and> (\<forall>p \<in> set P. h p \<noteq> None) \<longrightarrow>
      CornerAreaVTBL fused h N P =
        Some (foldl (\<lambda>Accum p. mul_add fused
                (fdiv F1 (fadd F1 (u32_to_f32 (CornerCount (the (h p))))))
                (Area (the (h p))) Accum) F0 P))
   \<and> (length S = unat N \<longrightarrow>
      CornerAreaSwitch fused N S =
        Some (foldl (\<lambda>Accum s. mul_add fused
                (fdiv F1 (fadd F1 (u32_to_f32 (GetCornerCountSwitch (Type s)))))
                (GetAreaSwitch s) Accum) F0 S))
   \<and> (length S = unat N \<and> (\<forall>s \<in> set S. Type s < Shape_Count) \<longrightarrow>
      CornerAreaUnion fused N S =
        Some (foldl (\<lambda>Accum s. mul_add fused
                (fmul (CornerAreaCTable ! unat (Type s)) (Width s)) (Height s) Accum) F0 S))
   \<and> mul_add True a b c = ffma a b c
   \<and> mul_add False a b c = fadd c (fmul a b)"
proof (intro conjI impI)
  assume "length P = unat N \<and> (\<forall>p \<in> set P. h p \<noteq> None)"
  then show "CornerAreaVTBL fused h N P =
        Some (foldl (\<lambda>Accum p. mul_add fused
                (fdiv F1 (fadd F1 (u32_to_f32 (CornerCount (the (h p))))))
                (Area (the (h p))) Accum) F0 P)"
    unfolding CornerAreaVTBL_def
    by (intro accum_loop_all add_CornerVTBL_valid) simp_all
next
  assume "length S = unat N"
  then show "CornerAreaSwitch fused N S =
        Some (foldl (\<lambda>Accum s. mul_add fused
                (fdiv F1 (fadd F1 (u32_to_f32 (GetCornerCountSwitch (Type s)))))
                (GetAreaSwitch s) Accum) F0 S)"
    unfolding CornerAreaSwitch_def
    by (intro accum_loop_all) (simp_all add: add_CornerSwitch_def)
next
  assume "length S = unat N \<and> (\<forall>s \<in> set S. Type s < Shape_Count)"
  then show "CornerAreaUnion fused N S =
        Some (foldl (\<lambda>Accum s. mul_add fused
                (fmul (CornerAreaCTable ! unat (Type s)) (Width s)) (Height s) Accum) F0 S)"
    unfolding CornerAreaUnion_def
    by (intro accum_loop_all add_CornerAreaUnion_valid) simp_all
next
  show "mul_add True a b c = ffma a b c"
    by (simp add: mul_add_def)
next
  show "mul_add False a b c = fadd c (fmul a b)"
    by (simp add: mul_add_def)
qed

lemma corner_fused_1_11:
  "ffma (fdiv F1 (fadd F1 (u32_to_f32 4))) (fmul 0x41300000 0x41300000)
     (ffma (fdiv F1 (fadd F1 (u32_to_f32 4))) (fmul F1 F1) F0) = 0x41C33333"
  by code_simp

lemma corner_unfused_1_11:
  "fadd (fadd F0 (fmul (fdiv F1 (fadd F1 (u32_to_f32 4))) (fmul F1 F1)))
     (fmul (fdiv F1 (fadd F1 (u32_to_f32 4))) (fmul 0x41300000 0x41300000)) = 0x41C33334"
  by code_simp

lemma table_fused_1_11:
  "ffma (fmul (fdiv F1 (fadd F1 F4)) 0x41300000) 0x41300000
     (ffma (fmul (fdiv F1 (fadd F1 F4)) F1) F1 F0) = 0x41C33333"
  by code_simp

lemma table_unfused_1_11:
  "fadd (fadd F0 (fmul (fmul (fdiv F1 (fadd F1 F4)) F1) F1))
     (fmul (fmul (fdiv F1 (fadd F1 F4)) 0x41300000) 0x41300000) = 0x41C33334"
  by code_simp

text \<open>
  On the two squares of sides \<open>1.0f\<close> and \<open>11.0f\<close> (bits \<open>0x41300000\<close>) the two builds
  differ in the last bit, in all three strategies.
\<close>

theorem CornerArea_one_way_witness:
  "CornerAreaVTBL True (heap_of [square F1, square 0x41300000]) 2 [1, 2] = Some 0x41C33333
   \<and> CornerAreaVTBL False (heap_of [square F1, square 0x41300000]) 2 [1, 2] = Some 0x41C33334
   \<and> CornerAreaSwitch True 2 [flat_square F1, flat_square 0x41300000] = Some 0x41C33333
   \<and> CornerAreaSwitch False 2 [flat_square F1, flat_square 0x41300000] = Some 0x41C33334
   \<and> CornerAreaUnion True 2 [flat_square F1, flat_square 0x41300000] = Some 0x41C33333
   \<and> CornerAreaUnion False 2 [flat_square F1, flat_square 0x41300000] = Some 0x41C33334"
proof -
  let ?h = "heap_of [square F1, square 0x41300000]"
  let ?S = "[flat_square F1, flat_square 0x41300000]"
  have a: "CornerAreaVTBL True ?h 2 [1, 2] = Some 0x41C33333"
    using CornerArea_one_way [of "[1, 2]" 2 ?h True, THEN conjunct1]
    by (simp add: heap_of_def at_index_def mul_add_def corner_fused_1_11)
  have b: "CornerAreaVTBL False ?h 2 [1, 2] = Some 0x41C33334"
    using CornerArea_one_way [of "[1, 2]" 2 ?h False, THEN conjunct1]
    by (simp add: heap_of_def at_index_def mul_add_def corner_unfused_1_11)
  have c: "CornerAreaSwitch True 2 ?S = Some 0x41C33333"
    using CornerArea_one_way [of _ 2 _ True ?S, THEN conjunct2, THEN conjunct1]
    by (simp add: flat_square_def GetAreaSwitch_def GetCornerCountSwitch_def mul_add_def
          corner_fused_1_11)
  have d: "CornerAreaSwitch False 2 ?S = Some 0x41C33334"
    using CornerArea_one_way [of _ 2 _ False ?S, THEN conjunct2, THEN conjunct1]
    by (simp add: flat_square_def GetAreaSwitch_def GetCornerCountSwitch_def mul_add_def
          corner_unfused_1_11)
  have e: "CornerAreaUnion True 2 ?S = Some 0x41C33333"
    using CornerArea_one_way [of _ 2 _ True ?S, THEN conjunct2, THEN conjunct2, THEN conjunct1]
    by (simp add: flat_square_def Shape_Square_def Shape_Count_def CornerAreaCTable_def
          mul_add_def table_fused_1_11)
  have f: "CornerAreaUnion False 2 ?S = Some 0x41C33334"
    using CornerArea_one_way [of _ 2 _ False ?S, THEN conjunct2, THEN conjunct2, THEN conjunct1]
    by (simp add: flat_square_def Shape_Square_def Shape_Count_def CornerAreaCTable_def
          mul_add_def table_unfused_1_11)
  from a b c d e f show ?thesis by (intro conjI)
qed

lemma corner_vtbl_sq3:
  "CornerAreaVTBL True (heap_of [square F3, square F3]) 2 [1, 2] = Some 0x40666667"
  "CornerAreaVTBL False (heap_of [square F3, square F3]) 2 [1, 2] = Some 0x40666667"
  by code_simp+

lemma corner_switch_sq3:
  "CornerAreaSwitch True 2 [flat_square F3, flat_square F3] = Some 0x40666667"
  "CornerAreaSwitch False 2 [flat_square F3, flat_square F3] = Some 0x40666667"
  by code_simp+

lemma corner_union_sq3:
  "CornerAreaUnion True 2 [flat_square F3, flat_square F3] = Some 0x40666667"
  "CornerAreaUnion False 2 [flat_square F3, flat_square F3] = Some 0x40666667"
  by code_simp+

lemma spec_corner_vtbl_sq3:
  "spec_CornerArea Area CornerCount [square F3, square F3] = 0x40666666"
  by code_simp

lemma spec_corner_switch_sq3:
  "spec_CornerArea GetAreaSwitch (GetCornerCountSwitch \<circ> Type)
     [flat_square F3, flat_square F3] = 0x40666666"
  by code_simp

lemma spec_corner_union_sq3:
  "spec_CornerArea (the \<circ> GetAreaUnion) (GetCornerCountSwitch \<circ> Type)
     [flat_square F3, flat_square F3] = 0x40666666"
  by code_simp

text \<open>
  C2 as stated fails, on every build: on two squares of side \<open>3.0f\<close> the three functions
  return \<open>0x40666667\<close>, with or without contraction, while the sum of the areas divided by
  one plus the corner count, \<open>9.0f / 5.0f + 9.0f / 5.0f\<close>, is \<open>0x40666666\<close>.
\<close>

theorem CornerArea_not_quotient_counterexample:
  "CornerAreaVTBL True (heap_of [square F3, square F3]) 2 [1, 2]
     \<noteq> Some (spec_CornerArea Area CornerCount [square F3, square F3])
   \<and> CornerAreaVTBL False (heap_of [square F3, square F3]) 2 [1, 2]
     \<noteq> Some (spec_CornerArea Area CornerCount [square F3, square F3])
   \<and> CornerAreaSwitch True 2 [flat_square F3, flat_square F3]
     \<noteq> Some (spec_CornerArea GetAreaSwitch (GetCornerCountSwitch \<circ> Type)
               [flat_square F3, flat_square F3])
   \<and> CornerAreaSwitch False 2 [flat_square F3, flat_square F3]
     \<noteq> Some (spec_CornerArea GetAreaSwitch (GetCornerCountSwitch \<circ> Type)
               [flat_square F3, flat_square F3])
   \<and> CornerAreaUnion True 2 [flat_square F3, flat_square F3]
     \<noteq> Some (spec_CornerArea (the \<circ> GetAreaUnion) (GetCornerCountSwitch \<circ> Type)
               [flat_square F3, flat_square F3])
   \<and> CornerAreaUnion False 2 [flat_square F3, flat_square F3]
     \<noteq> Some (spec_CornerArea (the \<circ> GetAreaUnion) (GetCornerCountSwitch \<circ> Type)
               [flat_square F3, flat_square F3])"
  unfolding corner_vtbl_sq3 corner_switch_sq3 corner_union_sq3 spec_corner_vtbl_sq3
    spec_corner_switch_sq3 spec_corner_union_sq3
  by simp

text \<open>
  C3, as amended. Every four-accumulator function reads only the first
  \<open>4 * (N div 4)\<close> elements: its result on \<open>N\<close> elements is its own result on exactly
  those, the last 0 to 3 elements being dropped, on every build. On a list of \<open>N\<close> elements (valid
  pointers, tags below \<open>Shape_Count\<close> for the table) that result is
  \<open>((R0 + R1) + R2) + R3\<close>, where \<open>Rj\<close> is what the one-accumulator function returns
  on the elements \<open>j, j + 4, j + 8, ...\<close> of those first \<open>4 * (N div 4)\<close>.
\<close>

theorem four_way_drops_tail:
  fixes N :: u32 and S :: "shape_union list" and P :: "shape_ptr list" and h :: heap
  defines "laneS \<equiv> \<lambda>j. map (\<lambda>k. S ! (4 * k + j)) [0..<unat N div 4]"
      and "laneP \<equiv> \<lambda>j. map (\<lambda>k. P ! (4 * k + j)) [0..<unat N div 4]"
  shows
    "TotalAreaVTBL4 h N P = TotalAreaVTBL4 h (4 * (N div 4)) (take (4 * (unat N div 4)) P)
   \<and> CornerAreaVTBL4 fused h N P = CornerAreaVTBL4 fused h (4 * (N div 4)) (take (4 * (unat N div 4)) P)
   \<and> TotalAreaSwitch4 N S = TotalAreaSwitch4 (4 * (N div 4)) (take (4 * (unat N div 4)) S)
   \<and> CornerAreaSwitch4 fused N S = CornerAreaSwitch4 fused (4 * (N div 4)) (take (4 * (unat N div 4)) S)
   \<and> TotalAreaUnion4 fused N S = TotalAreaUnion4 fused (4 * (N div 4)) (take (4 * (unat N div 4)) S)
   \<and> CornerAreaUnion4 fused N S = CornerAreaUnion4 fused (4 * (N div 4)) (take (4 * (unat N div 4)) S)
   \<and> (length P = unat N \<and> (\<forall>p \<in> set P. h p \<noteq> None) \<longrightarrow>
        (\<exists>R0 R1 R2 R3.
            TotalAreaVTBL h (N div 4) (laneP 0) = Some R0
          \<and> TotalAreaVTBL h (N div 4) (laneP 1) = Some R1
          \<and> TotalAreaVTBL h (N div 4) (laneP 2) = Some R2
          \<and> TotalAreaVTBL h (N div 4) (laneP 3) = Some R3
          \<and> TotalAreaVTBL4 h N P = Some (fadd (fadd (fadd R0 R1) R2) R3))
      \<and> (\<exists>R0 R1 R2 R3.
            CornerAreaVTBL fused h (N div 4) (laneP 0) = Some R0
          \<and> CornerAreaVTBL fused h (N div 4) (laneP 1) = Some R1
          \<and> CornerAreaVTBL fused h (N div 4) (laneP 2) = Some R2
          \<and> CornerAreaVTBL fused h (N div 4) (laneP 3) = Some R3
          \<and> CornerAreaVTBL4 fused h N P = Some (fadd (fadd (fadd R0 R1) R2) R3)))
   \<and> (length S = unat N \<longrightarrow>
        (\<exists>R0 R1 R2 R3.
            TotalAreaSwitch (N div 4) (laneS 0) = Some R0
          \<and> TotalAreaSwitch (N div 4) (laneS 1) = Some R1
          \<and> TotalAreaSwitch (N div 4) (laneS 2) = Some R2
          \<and> TotalAreaSwitch (N div 4) (laneS 3) = Some R3
          \<and> TotalAreaSwitch4 N S = Some (fadd (fadd (fadd R0 R1) R2) R3))
      \<and> (\<exists>R0 R1 R2 R3.
            CornerAreaSwitch fused (N div 4) (laneS 0) = Some R0
          \<and> CornerAreaSwitch fused (N div 4) (laneS 1) = Some R1
          \<and> CornerAreaSwitch fused (N div 4) (laneS 2) = Some R2
          \<and> CornerAreaSwitch fused (N div 4) (laneS 3) = Some R3
          \<and> CornerAreaSwitch4 fused N S = Some (fadd (fadd (fadd R0 R1) R2) R3)))
   \<and> (length S = unat N \<and> (\<forall>s \<in> set S. Type s < Shape_Count) \<longrightarrow>
        (\<exists>R0 R1 R2 R3.
            TotalAreaUnion fused (N div 4) (laneS 0) = Some R0
          \<and> TotalAreaUnion fused (N div 4) (laneS 1) = Some R1
          \<and> TotalAreaUnion fused (N div 4) (laneS 2) = Some R2
          \<and> TotalAreaUnion fused (N div 4) (laneS 3) = Some R3
          \<and> TotalAreaUnion4 fused N S = Some (fadd (fadd (fadd R0 R1) R2) R3))
      \<and> (\<exists>R0 R1 R2 R3.
            CornerAreaUnion fused (N div 4) (laneS 0) = Some R0
          \<and> CornerAreaUnion fused (N div 4) (laneS 1) = Some R1
          \<and> CornerAreaUnion fused (N div 4) (laneS 2) = Some R2
          \<and> CornerAreaUnion fused (N div 4) (laneS 3) = Some R3
          \<and> CornerAreaUnion4 fused N S = Some (fadd (fadd (fadd R0 R1) R2) R3)))"
proof -
  have lenS: "4 * unat (N div 4) \<le> unat N"
    by (simp add: unat_div)
  note lenP = lenS
  have u: "unat (N div 4) = unat N div 4"
    by (simp add: unat_div)
  have vt: "length P = unat N \<and> (\<forall>p \<in> set P. h p \<noteq> None) \<Longrightarrow>
        (\<exists>R0 R1 R2 R3.
            TotalAreaVTBL h (N div 4) (laneP 0) = Some R0
          \<and> TotalAreaVTBL h (N div 4) (laneP 1) = Some R1
          \<and> TotalAreaVTBL h (N div 4) (laneP 2) = Some R2
          \<and> TotalAreaVTBL h (N div 4) (laneP 3) = Some R3
          \<and> TotalAreaVTBL4 h N P = Some (fadd (fadd (fadd R0 R1) R2) R3))"
    unfolding TotalAreaVTBL_def TotalAreaVTBL4_def laneP_def u [symmetric]
    by (rule four_way_lanes [where g = "\<lambda>Accum p. fadd Accum (Area (the (h p)))"])
       (simp_all add: lenP add_AreaVTBL_valid)
  have vc: "length P = unat N \<and> (\<forall>p \<in> set P. h p \<noteq> None) \<Longrightarrow>
        (\<exists>R0 R1 R2 R3.
            CornerAreaVTBL fused h (N div 4) (laneP 0) = Some R0
          \<and> CornerAreaVTBL fused h (N div 4) (laneP 1) = Some R1
          \<and> CornerAreaVTBL fused h (N div 4) (laneP 2) = Some R2
          \<and> CornerAreaVTBL fused h (N div 4) (laneP 3) = Some R3
          \<and> CornerAreaVTBL4 fused h N P = Some (fadd (fadd (fadd R0 R1) R2) R3))"
    unfolding CornerAreaVTBL_def CornerAreaVTBL4_def laneP_def u [symmetric]
    by (rule four_way_lanes [where g = "\<lambda>Accum p. mul_add fused (fdiv F1 (fadd F1
            (u32_to_f32 (CornerCount (the (h p)))))) (Area (the (h p))) Accum"])
       (simp_all add: lenP add_CornerVTBL_valid)
  have st: "length S = unat N \<Longrightarrow>
        (\<exists>R0 R1 R2 R3.
            TotalAreaSwitch (N div 4) (laneS 0) = Some R0
          \<and> TotalAreaSwitch (N div 4) (laneS 1) = Some R1
          \<and> TotalAreaSwitch (N div 4) (laneS 2) = Some R2
          \<and> TotalAreaSwitch (N div 4) (laneS 3) = Some R3
          \<and> TotalAreaSwitch4 N S = Some (fadd (fadd (fadd R0 R1) R2) R3))"
    unfolding TotalAreaSwitch_def TotalAreaSwitch4_def laneS_def u [symmetric]
    by (rule four_way_lanes [where g = "\<lambda>Accum s. fadd Accum (GetAreaSwitch s)"])
       (simp_all add: lenS add_AreaSwitch_def)
  have sc: "length S = unat N \<Longrightarrow>
        (\<exists>R0 R1 R2 R3.
            CornerAreaSwitch fused (N div 4) (laneS 0) = Some R0
          \<and> CornerAreaSwitch fused (N div 4) (laneS 1) = Some R1
          \<and> CornerAreaSwitch fused (N div 4) (laneS 2) = Some R2
          \<and> CornerAreaSwitch fused (N div 4) (laneS 3) = Some R3
          \<and> CornerAreaSwitch4 fused N S = Some (fadd (fadd (fadd R0 R1) R2) R3))"
    unfolding CornerAreaSwitch_def CornerAreaSwitch4_def laneS_def u [symmetric]
    by (rule four_way_lanes [where g = "\<lambda>Accum s. mul_add fused (fdiv F1 (fadd F1
            (u32_to_f32 (GetCornerCountSwitch (Type s))))) (GetAreaSwitch s) Accum"])
       (simp_all add: lenS add_CornerSwitch_def)
  have ut: "length S = unat N \<and> (\<forall>s \<in> set S. Type s < Shape_Count) \<Longrightarrow>
        (\<exists>R0 R1 R2 R3.
            TotalAreaUnion fused (N div 4) (laneS 0) = Some R0
          \<and> TotalAreaUnion fused (N div 4) (laneS 1) = Some R1
          \<and> TotalAreaUnion fused (N div 4) (laneS 2) = Some R2
          \<and> TotalAreaUnion fused (N div 4) (laneS 3) = Some R3
          \<and> TotalAreaUnion4 fused N S = Some (fadd (fadd (fadd R0 R1) R2) R3))"
    unfolding TotalAreaUnion_def TotalAreaUnion4_def laneS_def u [symmetric]
    by (rule four_way_lanes [where g = "\<lambda>Accum s. mul_add fused
            (fmul (AreaCTable ! unat (Type s)) (Width s)) (Height s) Accum"])
       (simp_all add: lenS add_AreaUnion_valid)
  have uc: "length S = unat N \<and> (\<forall>s \<in> set S. Type s < Shape_Count) \<Longrightarrow>
        (\<exists>R0 R1 R2 R3.
            CornerAreaUnion fused (N div 4) (laneS 0) = Some R0
          \<and> CornerAreaUnion fused (N div 4) (laneS 1) = Some R1
          \<and> CornerAreaUnion fused (N div 4) (laneS 2) = Some R2
          \<and> CornerAreaUnion fused (N div 4) (laneS 3) = Some R3
          \<and> CornerAreaUnion4 fused N S = Some (fadd (fadd (fadd R0 R1) R2) R3))"
    unfolding CornerAreaUnion_def CornerAreaUnion4_def laneS_def u [symmetric]
    by (rule four_way_lanes [where g = "\<lambda>Accum s. mul_add fused
            (fmul (CornerAreaCTable ! unat (Type s)) (Width s)) (Height s) Accum"])
       (simp_all add: lenS add_CornerAreaUnion_valid)
  show ?thesis
    unfolding TotalAreaVTBL4_def CornerAreaVTBL4_def TotalAreaSwitch4_def CornerAreaSwitch4_def
      TotalAreaUnion4_def CornerAreaUnion4_def
    apply (intro conjI impI)
    apply (rule sum_accums_take)+
    using vt vc st sc ut uc
    unfolding TotalAreaVTBL4_def CornerAreaVTBL4_def TotalAreaSwitch4_def CornerAreaSwitch4_def
      TotalAreaUnion4_def CornerAreaUnion4_def
    by blast+
qed

theorem four_way_drops_tail_witness:
  "(\<exists>R. TotalAreaVTBL4 (heap_of (replicate 5 (square F3))) 5 [1, 2, 3, 4, 5] = Some R)
   \<and> (\<exists>R. TotalAreaSwitch4 5 (replicate 5 (flat_square F3)) = Some R)
   \<and> (\<exists>R. TotalAreaUnion4 True 5 (replicate 5 (flat_square F3)) = Some R)
   \<and> TotalAreaSwitch4 5 (replicate 5 (flat_square F3))
       = TotalAreaSwitch4 4 (replicate 4 (flat_square F3))"
proof -
  let ?h = "heap_of (replicate 5 (square F3))"
  let ?P = "[1, 2, 3, 4, 5 :: nat]"
  let ?S = "replicate 5 (flat_square F3)"
  note t = four_way_drops_tail [of ?h 5 ?P True ?S]
  have p: "length ?P = unat (5 :: u32) \<and> (\<forall>p \<in> set ?P. ?h p \<noteq> None)"
    by (simp add: heap_of_def at_index_def)
  have s: "length ?S = unat (5 :: u32)"
    by simp
  have u: "length ?S = unat (5 :: u32) \<and> (\<forall>s \<in> set ?S. Type s < Shape_Count)"
    by (simp add: flat_square_def Shape_Square_def Shape_Count_def)
  have a: "\<exists>R. TotalAreaVTBL4 ?h 5 ?P = Some R"
    using t p by blast
  have b: "\<exists>R. TotalAreaSwitch4 5 ?S = Some R"
    using t s by blast
  have c: "\<exists>R. TotalAreaUnion4 True 5 ?S = Some R"
    using t u by blast
  have "TotalAreaSwitch4 5 ?S =
      TotalAreaSwitch4 (4 * (5 div 4)) (take (4 * (unat (5 :: u32) div 4)) ?S)"
    using t by blast
  then have d: "TotalAreaSwitch4 5 ?S = TotalAreaSwitch4 4 (replicate 4 (flat_square F3))"
    by simp
  from a b c d show ?thesis by (intro conjI)
qed

lemma four_way_ex:
  "TotalAreaSwitch4 9
     [flat_square 0x45800000, flat_square F1, flat_square F0, flat_square F0,
      flat_square F0, flat_square F1, flat_square F0, flat_square F0,
      flat_square F3] = Some 0x4B800001"
  by code_simp

lemma one_way_ex:
  "TotalAreaSwitch 8 (take 8
     [flat_square 0x45800000, flat_square F1, flat_square F0, flat_square F0,
      flat_square F0, flat_square F1, flat_square F0, flat_square F0,
      flat_square F3]) = Some 0x4B800000"
  by code_simp

text \<open>
  C3 as stated fails: on nine squares of sides 4096, 1, 0, 0, 0, 1, 0, 0, 3 the
  four-accumulator sum is \<open>(2 ^ 24 + (1 + 1)) + 0 + 0 = 16777218.0f\<close>, while the
  one-accumulator sum over the first eight adds 1 to \<open>2 ^ 24\<close> twice, each time rounding
  back, and is \<open>16777216.0f\<close>.
\<close>

theorem four_way_not_one_way_counterexample:
  "TotalAreaSwitch4 9
     [flat_square 0x45800000, flat_square F1, flat_square F0, flat_square F0,
      flat_square F0, flat_square F1, flat_square F0, flat_square F0,
      flat_square F3]
   \<noteq> TotalAreaSwitch 8 (take 8
     [flat_square 0x45800000, flat_square F1, flat_square F0, flat_square F0,
      flat_square F0, flat_square F1, flat_square F0, flat_square F0,
      flat_square F3])"
  unfolding four_way_ex one_way_ex by simp

section \<open>The collectors\<close>

text \<open>
  C9. \<open>addShape\<close>, of either collector, returns the pointer it was given and leaves the
  heap as it was, so the shape is unchanged; the collector differs only by the elements
  appended to its arrays.
\<close>

theorem addShape_passes_through:
  assumes "h shape = Some obj"
  shows "AreaCollector_addShape h c shape =
           Some (h, c\<lparr>AreaCollector.areas := AreaCollector.areas c @ [Area obj]\<rparr>, shape)
       \<and> CornerCollector_addShape h cc shape =
           Some (h, cc\<lparr>CornerCollector.areas := CornerCollector.areas cc @ [Area obj],
                      weights := weights cc @ [fdiv F1 (fadd F1 (u32_to_f32 (CornerCount obj)))]\<rparr>,
                 shape)"
  using assms by (simp add: AreaCollector_addShape_def CornerCollector_addShape_def Let_def)

theorem addShape_passes_through_witness:
  "AreaCollector_addShape (heap_of [square F3]) \<lparr>AreaCollector.areas = []\<rparr> 1 =
     Some (heap_of [square F3], \<lparr>AreaCollector.areas = [Area (square F3)]\<rparr>, 1)
   \<and> CornerCollector_addShape (heap_of [square F3]) CornerCollector_new 1 =
     Some (heap_of [square F3],
           \<lparr>CornerCollector.areas = [Area (square F3)],
              weights = [fdiv F1 (fadd F1 (u32_to_f32 4))]\<rparr>, 1)"
  using addShape_passes_through [of "heap_of [square F3]" 1 "square F3"
      "\<lparr>AreaCollector.areas = []\<rparr>" CornerCollector_new]
  by (simp add: heap_of_def at_index_def CornerCollector_new_def)

lemma CornerCollector_addShape_lengths:
  assumes "CornerCollector_addShape h c p = Some (h', c', r)"
  shows "h' = h \<and> length (CornerCollector.areas c') = Suc (length (CornerCollector.areas c))
       \<and> length (weights c') = Suc (length (weights c))"
  using assms
  by (auto simp: CornerCollector_addShape_def Let_def split: option.splits)

lemma CornerCollector_addShapes_lengths:
  assumes "\<forall>p \<in> set ps. h p \<noteq> None"
  shows "\<exists>c'. CornerCollector_addShapes h c ps = Some (h, c')
       \<and> length (CornerCollector.areas c') = length (CornerCollector.areas c) + length ps
       \<and> length (weights c') = length (weights c) + length ps"
  using assms
proof (induction ps arbitrary: c)
  case Nil
  then show ?case by simp
next
  case (Cons p ps)
  then obtain obj where obj: "h p = Some obj" by auto
  obtain c1 where c1: "CornerCollector_addShape h c p = Some (h, c1, p)"
    using obj by (simp add: CornerCollector_addShape_def Let_def)
  have l1: "length (CornerCollector.areas c1) = Suc (length (CornerCollector.areas c))"
           "length (weights c1) = Suc (length (weights c))"
    using CornerCollector_addShape_lengths [OF c1] by simp_all
  from Cons.IH [of c1] Cons.prems obtain c' where
    "CornerCollector_addShapes h c1 ps = Some (h, c')"
    "length (CornerCollector.areas c') = length (CornerCollector.areas c1) + length ps"
    "length (weights c') = length (weights c1) + length ps"
    by auto
  then show ?case
    using c1 l1 by simp
qed

text \<open>
  C8. Every \<open>addShape\<close> call on a \<open>CornerCollector\<close> appends exactly one element to
  \<open>areas\<close> and one to \<open>weights\<close>. Any run of calls on a new collector, with valid
  pointers, returns, and leaves both arrays as long as the run: the two lengths are equal
  after every call, since every prefix of a run is a run.
\<close>

theorem CornerCollector_parallel_arrays:
  "(\<forall>h c p h' c' r. CornerCollector_addShape h c p = Some (h', c', r) \<longrightarrow>
       length (CornerCollector.areas c') = Suc (length (CornerCollector.areas c))
     \<and> length (weights c') = Suc (length (weights c)))
   \<and> (\<forall>h ps. (\<forall>p \<in> set ps. h p \<noteq> None) \<longrightarrow>
       (\<exists>c'. CornerCollector_addShapes h CornerCollector_new ps = Some (h, c')
           \<and> length (CornerCollector.areas c') = length ps
           \<and> length (weights c') = length ps
           \<and> length (CornerCollector.areas c') = length (weights c')))"
proof (intro conjI allI impI)
  fix h c p h' c' r
  assume "CornerCollector_addShape h c p = Some (h', c', r)"
  then show "length (CornerCollector.areas c') = Suc (length (CornerCollector.areas c))"
    and "length (weights c') = Suc (length (weights c))"
    using CornerCollector_addShape_lengths by blast+
next
  fix h :: heap and ps
  assume "\<forall>p \<in> set ps. h p \<noteq> None"
  from CornerCollector_addShapes_lengths [OF this, of CornerCollector_new]
  show "\<exists>c'. CornerCollector_addShapes h CornerCollector_new ps = Some (h, c')
           \<and> length (CornerCollector.areas c') = length ps
           \<and> length (weights c') = length ps
           \<and> length (CornerCollector.areas c') = length (weights c')"
    by (auto simp: CornerCollector_new_def)
qed

theorem CornerCollector_parallel_arrays_witness:
  "\<exists>c'. CornerCollector_addShapes (heap_of [square F3, circle F3]) CornerCollector_new [1, 2, 1]
         = Some (heap_of [square F3, circle F3], c')
       \<and> length (CornerCollector.areas c') = 3 \<and> length (weights c') = 3"
proof -
  let ?h = "heap_of [square F3, circle F3]"
  have v: "\<forall>p \<in> set [1, 2, 1 :: nat]. ?h p \<noteq> None"
    by (simp add: heap_of_def at_index_def)
  have "\<exists>c'. CornerCollector_addShapes ?h CornerCollector_new [1, 2, 1] = Some (?h, c')
           \<and> length (CornerCollector.areas c') = length [1, 2, 1 :: nat]
           \<and> length (weights c') = length [1, 2, 1 :: nat]
           \<and> length (CornerCollector.areas c') = length (weights c')"
    using CornerCollector_parallel_arrays [THEN conjunct2, rule_format, of "[1, 2, 1]" ?h] v
    by blast
  then obtain c' where r: "CornerCollector_addShapes ?h CornerCollector_new [1, 2, 1] = Some (?h, c')"
    and la: "length (CornerCollector.areas c') = length [1, 2, 1 :: nat]"
    and lw: "length (weights c') = length [1, 2, 1 :: nat]"
    by blast
  from la have la3: "length (CornerCollector.areas c') = 3" by simp
  from lw have lw3: "length (weights c') = 3" by simp
  show ?thesis
    by (intro exI [of _ c'] conjI r la3 lw3)
qed

section \<open>The reduction engine\<close>

text \<open>
  C5, as amended. The combine step after the bulk loop adds the accumulators four apart
  first, \<open>(0 + 4)\<close>, \<open>(1 + 5)\<close>, \<open>(2 + 6)\<close>, \<open>(3 + 7)\<close>, then the adjacent pairs of
  those four sums, then the last pair; both collectors continue from that vector, on
  every build.
\<close>

theorem combine_order:
  "combine8 (s0, s1, s2, s3, s4, s5, s6, s7) =
     mm256_add_ps
       (mm256_add_ps (mm256_add_ps s0 s4) (mm256_add_ps s1 s5))
       (mm256_add_ps (mm256_add_ps s2 s6) (mm256_add_ps s3 s7))
   \<and> TotalAreaCollector c =
       (case TotalArea_bulk (AreaCollector.areas c) 0 zero_accs of
          (i, s0, s1, s2, s3, s4, s5, s6, s7) \<Rightarrow>
        case TotalArea_rem (AreaCollector.areas c) i
               (mm256_add_ps
                  (mm256_add_ps (mm256_add_ps s0 s4) (mm256_add_ps s1 s5))
                  (mm256_add_ps (mm256_add_ps s2 s6) (mm256_add_ps s3 s7))) of
          (i', sum0) \<Rightarrow> TotalArea_tail (AreaCollector.areas c) i' (hsum sum0))
   \<and> CornerAreaCollector fused cc =
       (case CornerArea_bulk (CornerCollector.areas cc) (weights cc) 0 zero_accs of
          None \<Rightarrow> None
        | Some (i, s0, s1, s2, s3, s4, s5, s6, s7) \<Rightarrow>
           (case CornerArea_rem (CornerCollector.areas cc) (weights cc) i
               (mm256_add_ps
                  (mm256_add_ps (mm256_add_ps s0 s4) (mm256_add_ps s1 s5))
                  (mm256_add_ps (mm256_add_ps s2 s6) (mm256_add_ps s3 s7))) of
              None \<Rightarrow> None
            | Some (i', sum0) \<Rightarrow>
                CornerArea_tail fused (CornerCollector.areas cc) (weights cc) i' (hsum sum0)))"
  by (simp add: combine8_def TotalAreaCollector_def CornerAreaCollector_def Let_def
        split: prod.splits option.splits)

lemma collector_ex:
  "TotalAreaCollector
     \<lparr>AreaCollector.areas = (replicate 64 0)[0 := 0x4B800000, 8 := F1, 40 := F1]\<rparr> = 0x4B800001"
  by code_simp

lemma collector_ex_adjacent:
  "spec_TotalAreaCollector_adjacent
     \<lparr>AreaCollector.areas = (replicate 64 0)[0 := 0x4B800000, 8 := F1, 40 := F1]\<rparr> = 0x4B800000"
  by code_simp

text \<open>
  C5 as stated fails: with \<open>16777216.0f\<close> at index 0 and \<open>1.0f\<close> at indices 8 and 40
  of 64 elements, lane 0 of the accumulators 0, 1 and 5 holds \<open>2 ^ 24\<close>, 1 and 1. The
  code adds \<open>1 + 1\<close> first and returns \<open>16777218.0f\<close>; the adjacent order adds
  \<open>2 ^ 24 + 1\<close> first, which rounds back to \<open>2 ^ 24\<close>, and ends at \<open>16777216.0f\<close>.
\<close>

theorem combine_not_adjacent_counterexample:
  "TotalAreaCollector
     \<lparr>AreaCollector.areas = (replicate 64 0)[0 := 0x4B800000, 8 := F1, 40 := F1]\<rparr>
   \<noteq> spec_TotalAreaCollector_adjacent
     \<lparr>AreaCollector.areas = (replicate 64 0)[0 := 0x4B800000, 8 := F1, 40 := F1]\<rparr>"
  by (simp add: collector_ex collector_ex_adjacent)

text \<open>
  C6. On a collector whose \<open>areas\<close> holds 65 elements, each \<open>1.0f\<close>, \<open>TotalAreaCollector\<close>
  returns exactly \<open>65.0f\<close> (bits \<open>0x42820000\<close>): one round of the bulk loop over 64
  elements, no 8-element round, and one element in the scalar tail.
\<close>

theorem TotalAreaCollector_65_ones:
  "TotalAreaCollector \<lparr>AreaCollector.areas = replicate 65 F1\<rparr> = round_f32 65 1 0
   \<and> round_f32 65 1 0 = 0x42820000
   \<and> TotalArea_bulk (replicate 65 F1) 0 zero_accs
       = (64, (F1, F1, F1, F1, F1, F1, F1, F1), (F1, F1, F1, F1, F1, F1, F1, F1),
              (F1, F1, F1, F1, F1, F1, F1, F1), (F1, F1, F1, F1, F1, F1, F1, F1),
              (F1, F1, F1, F1, F1, F1, F1, F1), (F1, F1, F1, F1, F1, F1, F1, F1),
              (F1, F1, F1, F1, F1, F1, F1, F1), (F1, F1, F1, F1, F1, F1, F1, F1))
   \<and> TotalArea_rem (replicate 65 F1) 64 (0x41000000, 0x41000000, 0x41000000, 0x41000000,
         0x41000000, 0x41000000, 0x41000000, 0x41000000)
       = (64, 0x41000000, 0x41000000, 0x41000000, 0x41000000,
              0x41000000, 0x41000000, 0x41000000, 0x41000000)"
proof (intro conjI)
  show "TotalAreaCollector \<lparr>AreaCollector.areas = replicate 65 F1\<rparr> = round_f32 65 1 0"
    by (simp add: TotalAreaCollector_def zero_accs_def mm256_setzero_ps_def mm256_loadu_ps_def
          combine8_def hsum_def add_0_1 add_1_1 add_2_2 add_4_4 add_8_8 add_16_16 add_32_32
          add_64_1 TotalArea_bulk.simps TotalArea_rem.simps TotalArea_tail.simps)
  show "round_f32 65 1 0 = 0x42820000"
    by (rule F65_bits)
  show "TotalArea_bulk (replicate 65 F1) 0 zero_accs
       = (64, (F1, F1, F1, F1, F1, F1, F1, F1), (F1, F1, F1, F1, F1, F1, F1, F1),
              (F1, F1, F1, F1, F1, F1, F1, F1), (F1, F1, F1, F1, F1, F1, F1, F1),
              (F1, F1, F1, F1, F1, F1, F1, F1), (F1, F1, F1, F1, F1, F1, F1, F1),
              (F1, F1, F1, F1, F1, F1, F1, F1), (F1, F1, F1, F1, F1, F1, F1, F1))"
    by (simp add: zero_accs_def mm256_setzero_ps_def mm256_loadu_ps_def add_0_1
          TotalArea_bulk.simps)
  show "TotalArea_rem (replicate 65 F1) 64 (0x41000000, 0x41000000, 0x41000000, 0x41000000,
         0x41000000, 0x41000000, 0x41000000, 0x41000000)
       = (64, 0x41000000, 0x41000000, 0x41000000, 0x41000000,
              0x41000000, 0x41000000, 0x41000000, 0x41000000)"
    by (simp add: TotalArea_rem.simps)
qed

text \<open>
  C7. On empty arrays both modes of the reduction engine return exactly \<open>0.0f\<close>:
  \<open>TotalAreaCollector\<close> over an empty \<open>areas\<close>, and \<open>CornerAreaCollector\<close> over empty
  \<open>areas\<close> and \<open>weights\<close> (which returns, with that value), on every build.
\<close>

theorem Collectors_empty:
  "TotalAreaCollector \<lparr>AreaCollector.areas = []\<rparr> = F0
   \<and> CornerAreaCollector fused \<lparr>CornerCollector.areas = [], weights = []\<rparr> = Some F0
   \<and> F0 = 0"
proof (intro conjI)
  show "TotalAreaCollector \<lparr>AreaCollector.areas = []\<rparr> = F0"
    by (simp add: TotalAreaCollector_def zero_accs_def mm256_setzero_ps_def combine8_def
          hsum_def add_0_0 F0_bits TotalArea_bulk.simps TotalArea_rem.simps
          TotalArea_tail.simps)
  show "CornerAreaCollector fused \<lparr>CornerCollector.areas = [], weights = []\<rparr> = Some F0"
    by (simp add: CornerAreaCollector_def zero_accs_def mm256_setzero_ps_def combine8_def
          hsum_def add_0_0 F0_bits CornerArea_bulk.simps CornerArea_rem.simps
          CornerArea_tail.simps)
  show "F0 = 0"
    by (rule F0_bits)
qed

end
